theory Spec2Isabelle
  imports Complex_Main "HOL-Library.Log_Nat"
begin

section \<open>Velopark street-view crawler: stores, geofence, URL parser, controller\<close>

text \<open>
  A shallow embedding of \<^verbatim>\<open>auto_walkthrough.py\<close>. Python floats and the DECIMAL columns
  of the two tables are idealised as real numbers (unbounded range, no rounding); the
  geofence, where rounding could decide a comparison, is modelled a second time in binary64
  arithmetic. The PostgreSQL tables are lists of rows in physical (insertion) order; a psycopg2
  connection is a working copy of the database that \<^verbatim>\<open>commit\<close> makes durable and
  \<^verbatim>\<open>rollback\<close> discards.
\<close>

subsection \<open>Tables\<close>

text \<open>
  A PostGIS point is \<open>(x, y) = (longitude, latitude)\<close>, the argument order of
  \<^verbatim>\<open>ST_MakePoint(longitude, latitude)\<close>. The \<^verbatim>\<open>geom\<close> columns are nullable; rows loaded
  with only latitude and longitude have a NULL \<^verbatim>\<open>geom\<close>.
\<close>

type_synonym point = "real \<times> real"

record to_insert_row =
  ti_latitude :: real
  ti_longitude :: real
  ti_geom :: "point option"

record panoids_row =
  p_latitude :: real
  p_longitude :: real
  p_pano_id :: "string option"
  p_geom :: "point option"

record database =
  to_insert :: "to_insert_row list"
  panoids :: "panoids_row list"

text \<open>
  The statements of the two database functions. A fault oracle \<open>fails\<close> says which of them
  raises \<^verbatim>\<open>psycopg2.Error\<close> (connection loss, a violated constraint, a value out of the
  column's range).
\<close>

datatype db_stmt =
  Connect | FindNearest | DeleteNearest | CommitPrune | InsertPanoid | CommitInsert
  | SelectFirst

datatype py_error = TypeError | BrowserError | OverflowError

text \<open>
  \<^verbatim>\<open>ST_DWithin(a::geography, b::geography, r)\<close> is PostGIS's geodesic test "within r
  metres"; it is outside the repository and is a parameter of the model.
\<close>

type_synonym st_dwithin = "point \<Rightarrow> point \<Rightarrow> real \<Rightarrow> bool"

text \<open>
  \<^verbatim>\<open>geom <-> q\<close> is the planar distance in degrees; rows are ordered by it, so its square
  orders them the same way.
\<close>

definition knn_sq :: "point \<Rightarrow> point \<Rightarrow> real" where
  "knn_sq a b = (fst a - fst b)\<^sup>2 + (snd a - snd b)\<^sup>2"

text \<open>The WHERE clause of the nearest-point query: rows with a geom within 30 metres.\<close>

definition within_30 :: "st_dwithin \<Rightarrow> point \<Rightarrow> to_insert_row list \<Rightarrow> (point \<times> to_insert_row) list" where
  "within_30 dwithin q rows =
     concat (map (\<lambda>r. case ti_geom r of
                         None \<Rightarrow> []
                       | Some g \<Rightarrow> if dwithin g q 30 then [(g, r)] else []) rows)"

text \<open>
  \<^verbatim>\<open>ORDER BY geom <-> q LIMIT 1\<close>: the row of least distance, the earliest such row in
  table order when several are equally near.
\<close>

fun nearest :: "point \<Rightarrow> (point \<times> to_insert_row) list \<Rightarrow> (point \<times> to_insert_row) option" where
  "nearest q [] = None"
| "nearest q (c # cs) =
     (case nearest q cs of
        None \<Rightarrow> Some c
      | Some b \<Rightarrow> if knn_sq (fst c) q \<le> knn_sq (fst b) q then Some c else Some b)"

definition find_nearest_query :: "st_dwithin \<Rightarrow> real \<Rightarrow> real \<Rightarrow> to_insert_row list \<Rightarrow> (real \<times> real) option" where
  "find_nearest_query dwithin latitude longitude rows =
     (case nearest (longitude, latitude) (within_30 dwithin (longitude, latitude) rows) of
        None \<Rightarrow> None
      | Some (g, r) \<Rightarrow> Some (ti_latitude r, ti_longitude r))"

text \<open>\<^verbatim>\<open>DELETE FROM to_insert WHERE latitude = %s AND longitude = %s\<close>.\<close>

definition delete_query :: "real \<Rightarrow> real \<Rightarrow> to_insert_row list \<Rightarrow> to_insert_row list" where
  "delete_query nearest_lat nearest_lon rows =
     filter (\<lambda>r. \<not> (ti_latitude r = nearest_lat \<and> ti_longitude r = nearest_lon)) rows"

text \<open>
  The first half of \<^verbatim>\<open>insert_db\<close>: find the nearest frontier point within 30 metres and
  delete the rows that carry its coordinates. The result is the working copy of
  \<^verbatim>\<open>to_insert\<close> and the cursor's \<^verbatim>\<open>rowcount\<close> (0 when nothing was found).
\<close>

definition prune_nearest :: "st_dwithin \<Rightarrow> real \<Rightarrow> real \<Rightarrow> to_insert_row list \<Rightarrow> to_insert_row list \<times> nat" where
  "prune_nearest dwithin latitude longitude rows =
     (case find_nearest_query dwithin latitude longitude rows of
        None \<Rightarrow> (rows, 0)
      | Some (nearest_lat, nearest_lon) \<Rightarrow>
          (delete_query nearest_lat nearest_lon rows,
           length rows - length (delete_query nearest_lat nearest_lon rows)))"

text \<open>
  The second half of \<^verbatim>\<open>insert_db\<close>, from the first \<^verbatim>\<open>conn.commit()\<close> on: \<open>db\<close> is the
  durable database, \<open>db1\<close> the working copy after the delete. A statement that raises
  \<^verbatim>\<open>psycopg2.Error\<close> sends control to the \<^verbatim>\<open>except\<close> clause, whose \<^verbatim>\<open>rollback\<close> discards
  what has not been committed.
\<close>

definition commit_and_insert ::
  "(db_stmt \<Rightarrow> bool) \<Rightarrow> real \<Rightarrow> real \<Rightarrow> string option \<Rightarrow> database \<Rightarrow> database
     \<Rightarrow> (py_error + bool) \<times> database" where
  "commit_and_insert fails lat lon pano_id db db1 =
     (if fails CommitPrune then (Inr False, db)
      else if fails InsertPanoid then (Inr False, db1)
      else if fails CommitInsert then (Inr False, db1)
      else (Inr True,
            db1\<lparr>panoids := panoids db1 @
              [\<lparr>p_latitude = lat, p_longitude = lon, p_pano_id = pano_id,
                p_geom = Some (lon, lat)\<rparr>]\<rparr>))"

text \<open>
  \<^verbatim>\<open>insert_db(latitude, longitude, pano_id)\<close>. The arguments may be None (\<^verbatim>\<open>set_url\<close>
  passes on whatever the parser returned). With a None coordinate the query matches
  nothing and the message of the else branch formats None with \<^verbatim>\<open>.6f\<close>, a TypeError that
  the \<^verbatim>\<open>except psycopg2.Error\<close> clause does not catch. The result is what the call returns
  or raises, and the durable database afterwards.
\<close>

definition insert_db ::
  "st_dwithin \<Rightarrow> (db_stmt \<Rightarrow> bool) \<Rightarrow> real option \<Rightarrow> real option \<Rightarrow> string option \<Rightarrow> database
     \<Rightarrow> (py_error + bool) \<times> database" where
  "insert_db dwithin fails latitude longitude pano_id db =
     (if fails Connect then (Inr False, db)
      else if fails FindNearest then (Inr False, db)
      else case (latitude, longitude) of
        (Some lat, Some lon) \<Rightarrow>
          (case find_nearest_query dwithin lat lon (to_insert db) of
             Some (nearest_lat, nearest_lon) \<Rightarrow>
               if fails DeleteNearest then (Inr False, db)
               else commit_and_insert fails lat lon pano_id db
                      (db\<lparr>to_insert := delete_query nearest_lat nearest_lon (to_insert db)\<rparr>)
           | None \<Rightarrow> commit_and_insert fails lat lon pano_id db db)
      | _ \<Rightarrow> (Inl TypeError, db))"

text \<open>
  \<^verbatim>\<open>get_starting_coordinates()\<close>: \<^verbatim>\<open>SELECT latitude, longitude FROM to_insert LIMIT 1\<close>, the
  first row in table order. The DELETE that follows in the source is inside a string
  literal and never runs. Every exception gives \<^verbatim>\<open>(None, None)\<close>.
\<close>

definition get_starting_coordinates ::
  "(db_stmt \<Rightarrow> bool) \<Rightarrow> database \<Rightarrow> (real option \<times> real option) \<times> database" where
  "get_starting_coordinates fails db =
     (if fails Connect \<or> fails SelectFirst then ((None, None), db)
      else case to_insert db of
        [] \<Rightarrow> ((None, None), db)
      | r # _ \<Rightarrow> ((Some (ti_latitude r), Some (ti_longitude r)), db))"

text \<open>The oracle of a run in which no database statement raises.\<close>

definition no_fault :: "db_stmt \<Rightarrow> bool" where
  "no_fault s = False"

text \<open>
  Some statement that \<^verbatim>\<open>insert_db\<close> executes up to its first \<^verbatim>\<open>conn.commit()\<close> raises;
  the DELETE is executed only when the query found a point.
\<close>

definition prune_fault :: "(db_stmt \<Rightarrow> bool) \<Rightarrow> bool \<Rightarrow> bool" where
  "prune_fault fails found =
     (fails Connect \<or> fails FindNearest \<or> (found \<and> fails DeleteNearest) \<or> fails CommitPrune)"

text \<open>Some statement that \<^verbatim>\<open>insert_db\<close> executes raises.\<close>

definition storage_error :: "(db_stmt \<Rightarrow> bool) \<Rightarrow> bool \<Rightarrow> bool" where
  "storage_error fails found =
     (prune_fault fails found \<or> fails InsertPanoid \<or> fails CommitInsert)"

text \<open>
  A concrete stand-in for \<^verbatim>\<open>ST_DWithin\<close> at the inputs evaluated below: the planar
  approximation of 111000 metres per degree with which the source itself converts the
  fence radius to metres.
\<close>

definition planar_dwithin :: st_dwithin where
  "planar_dwithin a b r = (0 \<le> r \<and> 111000\<^sup>2 * knn_sq a b \<le> r\<^sup>2)"

subsection \<open>Geofence\<close>

definition latcenter_nancy :: real where
  "latcenter_nancy = 48.693167"

definition longcenter_nancy :: real where
  "longcenter_nancy = 6.185472"

definition R_nancy :: real where
  "R_nancy = sqrt ((latcenter_nancy - 48.667770)\<^sup>2 + (6.146822 - longcenter_nancy)\<^sup>2)"

definition in_nancy :: "real \<Rightarrow> real \<Rightarrow> bool" where
  "in_nancy lat long = ((long - longcenter_nancy)\<^sup>2 + (lat - latcenter_nancy)\<^sup>2 \<le> R_nancy\<^sup>2)"

subsection \<open>Geofence in binary64 arithmetic\<close>

text \<open>
  The same geofence with every operation rounded as IEEE 754 prescribes for binary64:
  to the nearest representable number, ties to the even significand. A finite float is the
  rational number it denotes (the sign of zero plays no part in these operations).
\<close>

datatype binary64 = Finite rat | PosInf | NegInf | NaN

definition exp2 :: "int \<Rightarrow> rat" where
  "exp2 e = (if 0 \<le> e then 2 ^ nat e else 1 / 2 ^ nat (- e))"

text \<open>The binary exponent of a positive rational: \<open>exp2 (ilog2 x) \<le> x < exp2 (ilog2 x + 1)\<close>.\<close>

definition ilog2 :: "rat \<Rightarrow> int" where
  "ilog2 x =
     (case quotient_of x of
        (p, q) \<Rightarrow> let k = bitlen p - bitlen q in if exp2 k \<le> x then k else k - 1)"

definition round_half_even :: "rat \<Rightarrow> int" where
  "round_half_even r =
     (let f = \<lfloor>r\<rfloor>; d = r - of_int f
      in if d < 1 / 2 then f else if 1 / 2 < d then f + 1 else if even f then f else f + 1)"

text \<open>
  Rounding to 53 significant bits, with the fixed spacing \<open>exp2 (- 1074)\<close> below the normal
  range; the exponent is not yet bounded above.
\<close>

definition fl64 :: "rat \<Rightarrow> rat" where
  "fl64 x =
     (if x = 0 then 0
      else let u = exp2 (max (ilog2 \<bar>x\<bar>) (- 1022) - 52)
           in of_int (round_half_even (x / u)) * u)"

text \<open>A rounded magnitude of \<open>exp2 1024\<close> or more has overflowed.\<close>

definition to_binary64 :: "rat \<Rightarrow> binary64" where
  "to_binary64 x =
     (let y = fl64 x
      in if y = 0 then Finite 0
         else if 1024 \<le> ilog2 \<bar>y\<bar> then (if 0 < y then PosInf else NegInf)
         else Finite y)"

fun f_neg :: "binary64 \<Rightarrow> binary64" where
  "f_neg (Finite x) = Finite (- x)"
| "f_neg PosInf = NegInf"
| "f_neg NegInf = PosInf"
| "f_neg NaN = NaN"

fun f_add :: "binary64 \<Rightarrow> binary64 \<Rightarrow> binary64" where
  "f_add (Finite x) (Finite y) = to_binary64 (x + y)"
| "f_add NaN b = NaN"
| "f_add a NaN = NaN"
| "f_add PosInf NegInf = NaN"
| "f_add NegInf PosInf = NaN"
| "f_add PosInf b = PosInf"
| "f_add NegInf b = NegInf"
| "f_add a PosInf = PosInf"
| "f_add a NegInf = NegInf"

definition f_sub :: "binary64 \<Rightarrow> binary64 \<Rightarrow> binary64" where
  "f_sub a b = f_add a (f_neg b)"

fun f_le :: "binary64 \<Rightarrow> binary64 \<Rightarrow> bool" where
  "f_le (Finite x) (Finite y) = (x \<le> y)"
| "f_le NaN b = False"
| "f_le a NaN = False"
| "f_le NegInf b = True"
| "f_le a PosInf = True"
| "f_le PosInf b = False"
| "f_le a NegInf = False"

text \<open>
  \<^verbatim>\<open>x ** 2\<close> is taken to be the rounded product of \<open>x\<close> with itself. On a Python float an
  overflow raises OverflowError; on a numpy float64 it gives infinity.
\<close>

fun py_pow2 :: "binary64 \<Rightarrow> py_error + binary64" where
  "py_pow2 (Finite x) =
     (case to_binary64 (x * x) of Finite y \<Rightarrow> Inr (Finite y) | _ \<Rightarrow> Inl OverflowError)"
| "py_pow2 PosInf = Inr PosInf"
| "py_pow2 NegInf = Inr PosInf"
| "py_pow2 NaN = Inr NaN"

fun np_pow2 :: "binary64 \<Rightarrow> binary64" where
  "np_pow2 (Finite x) = to_binary64 (x * x)"
| "np_pow2 PosInf = PosInf"
| "np_pow2 NegInf = PosInf"
| "np_pow2 NaN = NaN"

text \<open>The integer square root, one bit at a time from the top.\<close>

fun isqrt_bits :: "nat \<Rightarrow> int \<Rightarrow> int \<Rightarrow> int" where
  "isqrt_bits 0 n r = (if (r + 1)\<^sup>2 \<le> n then r + 1 else r)"
| "isqrt_bits (Suc i) n r =
     isqrt_bits i n (if (r + 2 ^ Suc i)\<^sup>2 \<le> n then r + 2 ^ Suc i else r)"

definition isqrt :: "int \<Rightarrow> int" where
  "isqrt n = isqrt_bits (nat (bitlen n)) n 0"

text \<open>
  The correctly rounded square root of a positive rational: the 53-bit integer part \<open>n\<close> of
  the root in units of \<open>u\<close>, rounded up when the argument lies beyond the midpoint
  \<open>(n + 1/2) u\<close>.
\<close>

definition fl64_sqrt :: "rat \<Rightarrow> rat" where
  "fl64_sqrt x =
     (let u = exp2 (ilog2 x div 2 - 52);
          q = x / (u * u);
          n = isqrt \<lfloor>q\<rfloor>;
          h = (of_int n + 1 / 2) * (of_int n + 1 / 2)
      in of_int (if q < h then n else if h < q then n + 1 else if even n then n else n + 1) * u)"

fun np_sqrt :: "binary64 \<Rightarrow> binary64" where
  "np_sqrt (Finite x) = (if x < 0 then NaN else if x = 0 then Finite 0 else Finite (fl64_sqrt x))"
| "np_sqrt PosInf = PosInf"
| "np_sqrt NegInf = NaN"
| "np_sqrt NaN = NaN"

definition latcenter_nancy_binary64 :: binary64 where
  "latcenter_nancy_binary64 = to_binary64 48.693167"

definition longcenter_nancy_binary64 :: binary64 where
  "longcenter_nancy_binary64 = to_binary64 6.185472"

text \<open>An OverflowError here would stop the module from loading.\<close>

definition R_nancy_binary64 :: "py_error + binary64" where
  "R_nancy_binary64 =
     (case py_pow2 (f_sub latcenter_nancy_binary64 (to_binary64 48.667770)) of
        Inl e \<Rightarrow> Inl e
      | Inr a \<Rightarrow>
          (case py_pow2 (f_sub (to_binary64 6.146822) longcenter_nancy_binary64) of
             Inl e \<Rightarrow> Inl e
           | Inr b \<Rightarrow> Inr (np_sqrt (f_add a b))))"

definition in_nancy_binary64 :: "binary64 \<Rightarrow> binary64 \<Rightarrow> py_error + bool" where
  "in_nancy_binary64 lat long =
     (case R_nancy_binary64 of
        Inl e \<Rightarrow> Inl e
      | Inr r \<Rightarrow>
          (case py_pow2 (f_sub long longcenter_nancy_binary64) of
             Inl e \<Rightarrow> Inl e
           | Inr a \<Rightarrow>
               (case py_pow2 (f_sub lat latcenter_nancy_binary64) of
                  Inl e \<Rightarrow> Inl e
                | Inr b \<Rightarrow> Inr (f_le (f_add a b) (np_pow2 r)))))"

subsection \<open>URL parser\<close>

text \<open>
  Strings are lists of 8-bit characters, so the model covers the URLs whose code points
  are below 256; there \<^verbatim>\<open>\d\<close> matches exactly the ten ASCII digits.
\<close>

definition is_digit :: "char \<Rightarrow> bool" where
  "is_digit c = (c \<in> set ''0123456789'')"

text \<open>A literal piece of a pattern at the start of \<open>s\<close>: what follows it.\<close>

definition strip_prefix :: "string \<Rightarrow> string \<Rightarrow> string option" where
  "strip_prefix lit s =
     (if take (length lit) s = lit then Some (drop (length lit) s) else None)"

text \<open>
  \<^verbatim>\<open>-?\d+\.\d+\<close> at the start of \<open>s\<close>: the text matched and what follows it. Both \<^verbatim>\<open>\d+\<close>
  are greedy, and giving digits back never helps, since the character that must follow (a
  dot, then a comma) is not a digit.
\<close>

definition match_number :: "string \<Rightarrow> (string \<times> string) option" where
  "match_number s =
     (let (sign, s1) = (case s of
                          [] \<Rightarrow> ([], s)
                        | c # t \<Rightarrow> if c = CHR ''-'' then ([c], t) else ([], s));
          int_part = takeWhile is_digit s1
      in if int_part = [] then None
         else case dropWhile is_digit s1 of
                [] \<Rightarrow> None
              | c # s2 \<Rightarrow>
                  if c = CHR ''.'' \<and> takeWhile is_digit s2 \<noteq> []
                  then Some (sign @ int_part @ [c] @ takeWhile is_digit s2, dropWhile is_digit s2)
                  else None)"

text \<open>\<^verbatim>\<open>/@(-?\d+\.\d+),(-?\d+\.\d+),\<close> at the start of \<open>s\<close>: the two groups.\<close>

definition match_lat_lon :: "string \<Rightarrow> (string \<times> string) option" where
  "match_lat_lon s =
     (case strip_prefix ''/@'' s of
        None \<Rightarrow> None
      | Some s1 \<Rightarrow>
     (case match_number s1 of
        None \<Rightarrow> None
      | Some (g1, s2) \<Rightarrow>
     (case strip_prefix '','' s2 of
        None \<Rightarrow> None
      | Some s3 \<Rightarrow>
     (case match_number s3 of
        None \<Rightarrow> None
      | Some (g2, s4) \<Rightarrow>
     (case strip_prefix '','' s4 of
        None \<Rightarrow> None
      | Some s5 \<Rightarrow> Some (g1, g2))))))"

text \<open>\<^verbatim>\<open>panoid%3D([^%&]+)\<close> at the start of \<open>s\<close>: the group.\<close>

definition match_panoid :: "string \<Rightarrow> string option" where
  "match_panoid s =
     (case strip_prefix ''panoid%3D'' s of
        None \<Rightarrow> None
      | Some s1 \<Rightarrow>
          if takeWhile (\<lambda>c. c \<noteq> CHR ''%'' \<and> c \<noteq> CHR ''&'') s1 = [] then None
          else Some (takeWhile (\<lambda>c. c \<noteq> CHR ''%'' \<and> c \<noteq> CHR ''&'') s1))"

text \<open>
  \<^verbatim>\<open>!3m5!1s([^!]+)!\<close> at the start of \<open>s\<close>: the group. The greedy group stops at the first
  exclamation mark or at the end of the string, and only the former closes the match.
\<close>

definition match_3m5 :: "string \<Rightarrow> string option" where
  "match_3m5 s =
     (case strip_prefix ''!3m5!1s'' s of
        None \<Rightarrow> None
      | Some s1 \<Rightarrow>
          if takeWhile (\<lambda>c. c \<noteq> CHR ''!'') s1 = [] then None
          else case dropWhile (\<lambda>c. c \<noteq> CHR ''!'') s1 of
                 [] \<Rightarrow> None
               | c # s2 \<Rightarrow> Some (takeWhile (\<lambda>c. c \<noteq> CHR ''!'') s1))"

text \<open>\<^verbatim>\<open>re.search\<close>: the match at the leftmost position where the pattern matches.\<close>

fun re_search :: "(string \<Rightarrow> 'a option) \<Rightarrow> string \<Rightarrow> 'a option" where
  "re_search m [] = m []"
| "re_search m (c # cs) = (case m (c # cs) of Some g \<Rightarrow> Some g | None \<Rightarrow> re_search m cs)"

text \<open>
  \<^verbatim>\<open>float(text)\<close> on the numerals the pattern captures, an optional minus sign, digits, a
  dot, digits: their decimal value. On any other text the model gives None, which stands
  for an exception raised inside the \<^verbatim>\<open>try\<close> block.
\<close>

definition digits_val :: "string \<Rightarrow> nat" where
  "digits_val ds = foldl (\<lambda>n c. 10 * n + (of_char c - 48)) 0 ds"

definition py_float :: "string \<Rightarrow> real option" where
  "py_float w =
     (let (neg, u) = (case w of
                        [] \<Rightarrow> (False, w)
                      | c # t \<Rightarrow> if c = CHR ''-'' then (True, t) else (False, w))
      in case dropWhile is_digit u of
           [] \<Rightarrow> None
         | c # fs \<Rightarrow>
             if c = CHR ''.'' \<and> takeWhile is_digit u \<noteq> [] \<and> fs \<noteq> [] \<and> list_all is_digit fs
             then Some ((if neg then - 1 else 1) *
                        (real (digits_val (takeWhile is_digit u))
                         + real (digits_val fs) / 10 ^ length fs))
             else None)"

definition parse_google_maps_url :: "string \<Rightarrow> real option \<times> real option \<times> string option" where
  "parse_google_maps_url url =
     (case re_search match_lat_lon url of
        None \<Rightarrow> (None, None, None)
      | Some (g1, g2) \<Rightarrow>
          (case (py_float g1, py_float g2) of
             (Some latitude, Some longitude) \<Rightarrow>
               (case re_search match_panoid url of
                  Some pano_id \<Rightarrow> (Some latitude, Some longitude, Some pano_id)
                | None \<Rightarrow>
                    (case re_search match_3m5 url of
                       Some pano_id \<Rightarrow> (Some latitude, Some longitude, Some pano_id)
                     | None \<Rightarrow> (Some latitude, Some longitude, None)))
           | _ \<Rightarrow> (None, None, None)))"

text \<open>
  What the patterns say, read as sets of strings: a decimal numeral, and the places where
  each pattern occurs in a URL.
\<close>

definition decimal :: "string \<Rightarrow> bool" where
  "decimal w =
     (\<exists>sg a b. w = sg @ a @ ''.'' @ b \<and> (sg = [] \<or> sg = ''-'') \<and> a \<noteq> [] \<and> b \<noteq> []
        \<and> list_all is_digit a \<and> list_all is_digit b)"

definition lat_lon_occurs :: "string \<Rightarrow> bool" where
  "lat_lon_occurs url =
     (\<exists>pre n1 n2 post. url = pre @ ''/@'' @ n1 @ '','' @ n2 @ '','' @ post
        \<and> decimal n1 \<and> decimal n2)"

definition panoid_occurs :: "string \<Rightarrow> bool" where
  "panoid_occurs url =
     (\<exists>pre c post. url = pre @ ''panoid%3D'' @ [c] @ post \<and> c \<noteq> CHR ''%'' \<and> c \<noteq> CHR ''&'')"

definition data_3m5_occurs :: "string \<Rightarrow> bool" where
  "data_3m5_occurs url =
     (\<exists>pre g post. url = pre @ ''!3m5!1s'' @ g @ ''!'' @ post \<and> g \<noteq> [] \<and> CHR ''!'' \<notin> set g)"

subsection \<open>Controller\<close>

datatype key = ARROW_UP | ARROW_DOWN

text \<open>
  The URL the browser is sent to: the one given on the command line, or the one
  \<^verbatim>\<open>create_streetview_url\<close> formats from a frontier point. The loop never looks inside it.
\<close>

datatype nav_url = Given string | Streetview real real

definition create_streetview_url :: "real \<Rightarrow> real \<Rightarrow> nav_url" where
  "create_streetview_url latitude longitude = Streetview latitude longitude"

text \<open>The variables of \<^verbatim>\<open>selenium_walkthrough\<close> that live across iterations of its loop.\<close>

record crawl_state =
  move :: bool
  iter :: nat
  keytopress :: key
  old_lat_long :: "real \<times> real"
  chained_fail :: nat
  url :: nav_url

text \<open>
  What the outside world does during one iteration: whether the browser calls at the head
  of the loop raise, the URL the browser shows after the key press, the faults of the
  database calls, and, should the iteration reseed, what happens inside \<^verbatim>\<open>set_url\<close>.
\<close>

record world =
  browser_raises :: bool
  current_url :: string
  insert_fails :: "db_stmt \<Rightarrow> bool"
  seed_fails :: "db_stmt \<Rightarrow> bool"
  landing_raises :: bool
  landing_url :: string
  landing_fails :: "db_stmt \<Rightarrow> bool"
  click_raises :: bool

text \<open>
  \<^verbatim>\<open>run_streetview_downloader_single(pano_id, None)\<close>: its boolean result is ignored by both
  callers. With a None id the \<^verbatim>\<open>' '.join(command)\<close> of its first message raises a TypeError
  that its \<^verbatim>\<open>except\<close> clauses do not catch.
\<close>

definition run_streetview_downloader_single :: "string option \<Rightarrow> py_error + unit" where
  "run_streetview_downloader_single pano_id =
     (case pano_id of None \<Rightarrow> Inl TypeError | Some p \<Rightarrow> Inr ())"

text \<open>
  \<^verbatim>\<open>set_url(driver, actions, url)\<close>: load the URL, commit where the browser landed, click.
  It always returns \<^verbatim>\<open>((0, 0), 0)\<close>, unless a call inside it raises.
\<close>

definition set_url ::
  "st_dwithin \<Rightarrow> world \<Rightarrow> nav_url \<Rightarrow> database \<Rightarrow> (py_error + ((real \<times> real) \<times> nat)) \<times> database" where
  "set_url dwithin w u db =
     (if landing_raises w then (Inl BrowserError, db)
      else case parse_google_maps_url (landing_url w) of
        (lat, long, panoid) \<Rightarrow>
          (case insert_db dwithin (landing_fails w) lat long panoid db of
             (Inl e, db1) \<Rightarrow> (Inl e, db1)
           | (Inr False, db1) \<Rightarrow>
               if click_raises w then (Inl BrowserError, db1) else (Inr ((0, 0), 0), db1)
           | (Inr True, db1) \<Rightarrow>
               (case run_streetview_downloader_single panoid of
                  Inl e \<Rightarrow> (Inl e, db1)
                | Inr ok \<Rightarrow>
                    if click_raises w then (Inl BrowserError, db1)
                    else (Inr ((0, 0), 0), db1))))"

text \<open>
  The statements that the three reseeding branches of the loop share: take a starting
  point from the frontier, keep the old URL when there is none, load it, and reset
  \<^verbatim>\<open>old_lat_long\<close>, \<^verbatim>\<open>chained_fail\<close> and \<^verbatim>\<open>move\<close>.
\<close>

definition reseed ::
  "st_dwithin \<Rightarrow> world \<Rightarrow> crawl_state \<Rightarrow> database \<Rightarrow> (py_error + crawl_state) \<times> database" where
  "reseed dwithin w s db =
     (case get_starting_coordinates (seed_fails w) db of
        (coordinates, db1) \<Rightarrow>
          (let u = (case coordinates of
                      (Some latitude, Some longitude) \<Rightarrow> create_streetview_url latitude longitude
                    | _ \<Rightarrow> url s)
           in case set_url dwithin w u db1 of
                (Inl e, db2) \<Rightarrow> (Inl e, db2)
              | (Inr (position, fails), db2) \<Rightarrow>
                  (Inr (s\<lparr>url := u, old_lat_long := position, chained_fail := fails,
                          move := False\<rparr>), db2)))"

text \<open>The URL a reseed loads: that of the first frontier point, or the old one.\<close>

definition seed_url :: "world \<Rightarrow> crawl_state \<Rightarrow> database \<Rightarrow> nav_url" where
  "seed_url w s db =
     (case fst (get_starting_coordinates (seed_fails w) db) of
        (Some latitude, Some longitude) \<Rightarrow> create_streetview_url latitude longitude
      | _ \<Rightarrow> url s)"

text \<open>
  One iteration of the \<^verbatim>\<open>while (True)\<close> loop. The transition names the branch taken, by the
  message it prints; the outcome is the state at the next iteration, or the end of the loop
  (a \<^verbatim>\<open>break\<close>, also the one of the \<^verbatim>\<open>except\<close> clause).
\<close>

datatype transition =
  BrowserFailed | CannotGoForward | ParsingUrlProblem | LeavingNancy | TooMuchFail
  | AlreadySeen | Inserted

datatype outcome = Continue crawl_state database | Break database

definition flip_key :: "key \<Rightarrow> key" where
  "flip_key k = (if k = ARROW_DOWN then ARROW_UP else ARROW_DOWN)"

definition loop_body :: "st_dwithin \<Rightarrow> world \<Rightarrow> crawl_state \<Rightarrow> database \<Rightarrow> transition \<times> outcome" where
  "loop_body dwithin w s0 db =
     (if browser_raises w then (BrowserFailed, Break db)
      else
        let s = s0\<lparr>move := True\<rparr> in
        case parse_google_maps_url (current_url w) of
          (lat, long, panoid) \<Rightarrow>
            if (lat, long) = (Some (fst (old_lat_long s)), Some (snd (old_lat_long s))) then
              (case reseed dwithin w s db of
                 (Inl e, db') \<Rightarrow> (CannotGoForward, Break db')
               | (Inr s', db') \<Rightarrow> (CannotGoForward, Continue (s'\<lparr>iter := iter s' + 1\<rparr>) db'))
            else
              (case (lat, long, panoid) of
                 (Some la, Some lo, Some p) \<Rightarrow>
                   if \<not> in_nancy la lo then
                     (case reseed dwithin w s db of
                        (Inl e, db') \<Rightarrow> (LeavingNancy, Break db')
                      | (Inr s', db') \<Rightarrow> (LeavingNancy, Continue s' db'))
                   else
                     (case insert_db dwithin (insert_fails w) lat long panoid db of
                        (Inl e, db1) \<Rightarrow> (BrowserFailed, Break db1)
                      | (Inr False, db1) \<Rightarrow>
                          (let s1 = s\<lparr>chained_fail := chained_fail s + 1\<rparr> in
                           if chained_fail s1 > 2 then
                             (case reseed dwithin w s1 db1 of
                                (Inl e, db') \<Rightarrow> (TooMuchFail, Break db')
                              | (Inr s', db') \<Rightarrow>
                                  (TooMuchFail,
                                   Continue (s'\<lparr>iter := iter s' + 1,
                                                keytopress := flip_key (keytopress s')\<rparr>) db'))
                           else (AlreadySeen, Continue s1 db1))
                      | (Inr True, db1) \<Rightarrow>
                          (Inserted,
                           Continue (s\<lparr>old_lat_long := (la, lo), iter := iter s + 1,
                                       chained_fail := 0\<rparr>) db1))
               | _ \<Rightarrow> (ParsingUrlProblem, Break db)))"

text \<open>
  The loop, run on the observations of its first iterations: the transitions taken, and
  the state reached when the observations end or the loop has been left.
\<close>

fun selenium_loop ::
  "st_dwithin \<Rightarrow> world list \<Rightarrow> crawl_state \<Rightarrow> database \<Rightarrow> transition list \<times> outcome" where
  "selenium_loop dwithin [] s db = ([], Continue s db)"
| "selenium_loop dwithin (w # ws) s db =
     (case loop_body dwithin w s db of
        (t, Break db') \<Rightarrow> ([t], Break db')
      | (t, Continue s' db') \<Rightarrow>
          (case selenium_loop dwithin ws s' db' of (ts, out) \<Rightarrow> (t # ts, out)))"

section \<open>Properties of the stores\<close>

lemma nearest_None: "(nearest q cs = None) = (cs = [])"
  by (cases cs) (auto split: option.splits)

lemma nearest_mem: "nearest q cs = Some c \<Longrightarrow> c \<in> set cs"
  by (induction cs arbitrary: c) (auto split: option.splits if_splits)

lemma nearest_least: "nearest q cs = Some c \<Longrightarrow> d \<in> set cs \<Longrightarrow> knn_sq (fst c) q \<le> knn_sq (fst d) q"
proof (induction cs arbitrary: c)
  case Nil
  then show ?case by simp
next
  case (Cons a cs)
  show ?case
  proof (cases "nearest q cs")
    case None
    then have "cs = []" by (simp add: nearest_None)
    with Cons.prems show ?thesis by simp
  next
    case (Some b)
    have b: "d \<in> set cs \<Longrightarrow> knn_sq (fst b) q \<le> knn_sq (fst d) q"
      using Cons.IH[OF Some] .
    show ?thesis
    proof (cases "knn_sq (fst a) q \<le> knn_sq (fst b) q")
      case True
      with Some Cons.prems(1) have "c = a" by simp
      with True b Cons.prems(2) show ?thesis by auto
    next
      case False
      with Some Cons.prems(1) have "c = b" by simp
      with False b Cons.prems(2) show ?thesis by auto
    qed
  qed
qed

lemma within_30_mem:
  "((g, r) \<in> set (within_30 dwithin q rows)) = (r \<in> set rows \<and> ti_geom r = Some g \<and> dwithin g q 30)"
proof (induction rows)
  case Nil
  then show ?case by (simp add: within_30_def)
next
  case (Cons a rows)
  have "within_30 dwithin q (a # rows) =
          (case ti_geom a of None \<Rightarrow> [] | Some g \<Rightarrow> if dwithin g q 30 then [(g, a)] else [])
          @ within_30 dwithin q rows"
    by (simp add: within_30_def)
  with Cons show ?case by (cases "ti_geom a") auto
qed

lemma find_nearest_query_None:
  "(find_nearest_query dwithin lat lon rows = None) = (within_30 dwithin (lon, lat) rows = [])"
  by (auto simp: find_nearest_query_def nearest_None split: option.splits)

lemma find_nearest_query_row:
  assumes "find_nearest_query dwithin lat lon rows = Some (nlat, nlon)"
  shows "\<exists>r g. r \<in> set rows \<and> ti_geom r = Some g \<and> dwithin g (lon, lat) 30
            \<and> ti_latitude r = nlat \<and> ti_longitude r = nlon
            \<and> (\<forall>r' g'. r' \<in> set rows \<and> ti_geom r' = Some g' \<and> dwithin g' (lon, lat) 30
                  \<longrightarrow> knn_sq g (lon, lat) \<le> knn_sq g' (lon, lat))"
proof -
  from assms obtain g r where n: "nearest (lon, lat) (within_30 dwithin (lon, lat) rows) = Some (g, r)"
    and c: "ti_latitude r = nlat" "ti_longitude r = nlon"
    by (auto simp: find_nearest_query_def split: option.splits)
  from nearest_mem[OF n] have m: "r \<in> set rows" "ti_geom r = Some g" "dwithin g (lon, lat) 30"
    by (simp_all add: within_30_mem)
  have "knn_sq g (lon, lat) \<le> knn_sq g' (lon, lat)"
    if "r' \<in> set rows" "ti_geom r' = Some g'" "dwithin g' (lon, lat) 30" for r' g'
    using nearest_least[OF n, of "(g', r')"] that by (simp add: within_30_mem)
  with m c show ?thesis by blast
qed

lemma delete_query_length: "length (delete_query a b rows) \<le> length rows"
  by (simp add: delete_query_def)

lemma delete_query_shrinks:
  "r \<in> set rows \<Longrightarrow> ti_latitude r = a \<Longrightarrow> ti_longitude r = b \<Longrightarrow> length (delete_query a b rows) < length rows"
  unfolding delete_query_def by (rule length_filter_less[of r]) auto

lemma prune_count_zero:
  "(snd (prune_nearest dwithin lat lon rows) = 0) = (within_30 dwithin (lon, lat) rows = [])"
proof (cases "find_nearest_query dwithin lat lon rows")
  case None
  then show ?thesis using find_nearest_query_None[of dwithin lat lon rows] by (simp add: prune_nearest_def)
next
  case (Some p)
  obtain a b where p: "p = (a, b)" by (cases p)
  from find_nearest_query_row[OF Some[unfolded p]] obtain r where
    "r \<in> set rows" "ti_latitude r = a" "ti_longitude r = b" by blast
  from delete_query_shrinks[OF this] have "length rows - length (delete_query a b rows) \<noteq> 0" by simp
  moreover have "within_30 dwithin (lon, lat) rows \<noteq> []"
    using Some find_nearest_query_None[of dwithin lat lon rows] by simp
  ultimately show ?thesis using Some p by (simp add: prune_nearest_def)
qed

lemma prune_count_length:
  "length (fst (prune_nearest dwithin lat lon rows)) + snd (prune_nearest dwithin lat lon rows) = length rows"
  using delete_query_length by (auto simp: prune_nearest_def split: option.splits)


text \<open>
  Claim C1, as the code has it: \<^verbatim>\<open>insert_db\<close> makes no distance check against the rows of
  \<^verbatim>\<open>panoids\<close>. Whether a commit is accepted depends only on whether a database statement
  raises; when none does it returns True and appends one row for the position, whatever
  \<^verbatim>\<open>panoids\<close> already holds.
\<close>

theorem insert_db_no_distance_check:
  "fst (insert_db dwithin fails (Some lat) (Some lon) pano_id db) =
     Inr (\<not> storage_error fails (find_nearest_query dwithin lat lon (to_insert db) \<noteq> None))
   \<and> panoids (snd (insert_db dwithin fails (Some lat) (Some lon) pano_id db)) =
     (if storage_error fails (find_nearest_query dwithin lat lon (to_insert db) \<noteq> None)
      then panoids db
      else panoids db @
        [\<lparr>p_latitude = lat, p_longitude = lon, p_pano_id = pano_id, p_geom = Some (lon, lat)\<rparr>])"
  by (auto simp: insert_db_def commit_and_insert_def storage_error_def prune_fault_def
           split: option.splits)

text \<open>
  Two commits of the same position and id in a row, with no fault: both are accepted and
  \<^verbatim>\<open>panoids\<close> holds the position twice.
\<close>

theorem insert_db_dedup_counterexample:
  "insert_db planar_dwithin no_fault (Some 48.6930) (Some 6.1855) (Some ''a'')
     \<lparr>to_insert = [], panoids = []\<rparr> =
   (Inr True, \<lparr>to_insert = [], panoids =
      [\<lparr>p_latitude = 48.6930, p_longitude = 6.1855, p_pano_id = Some ''a'',
        p_geom = Some (6.1855, 48.6930)\<rparr>]\<rparr>)
   \<and> insert_db planar_dwithin no_fault (Some 48.6930) (Some 6.1855) (Some ''a'')
     \<lparr>to_insert = [], panoids =
      [\<lparr>p_latitude = 48.6930, p_longitude = 6.1855, p_pano_id = Some ''a'',
        p_geom = Some (6.1855, 48.6930)\<rparr>]\<rparr> =
   (Inr True, \<lparr>to_insert = [], panoids =
      [\<lparr>p_latitude = 48.6930, p_longitude = 6.1855, p_pano_id = Some ''a'',
        p_geom = Some (6.1855, 48.6930)\<rparr>,
       \<lparr>p_latitude = 48.6930, p_longitude = 6.1855, p_pano_id = Some ''a'',
        p_geom = Some (6.1855, 48.6930)\<rparr>]\<rparr>)"
  by (simp add: insert_db_def commit_and_insert_def find_nearest_query_def within_30_def
        no_fault_def)

lemma insert_db_to_insert:
  "to_insert (snd (insert_db dwithin fails (Some lat) (Some lon) pano_id db)) =
     (if prune_fault fails (find_nearest_query dwithin lat lon (to_insert db) \<noteq> None)
      then to_insert db else fst (prune_nearest dwithin lat lon (to_insert db)))"
  by (auto simp: insert_db_def commit_and_insert_def prune_fault_def prune_nearest_def
           split: option.splits)

text \<open>
  Claim C2, as the code has it: \<^verbatim>\<open>insert_db\<close> is two transactions. A call that does not
  return True leaves \<^verbatim>\<open>panoids\<close> as it was; a fault up to the first commit leaves the whole
  database as it was; once the first commit is passed the frontier delete is durable,
  whatever happens to the insert.
\<close>

theorem insert_db_two_transactions:
  "(fst (insert_db dwithin fails (Some lat) (Some lon) pano_id db) \<noteq> Inr True \<longrightarrow>
      panoids (snd (insert_db dwithin fails (Some lat) (Some lon) pano_id db)) = panoids db)
   \<and> (prune_fault fails (find_nearest_query dwithin lat lon (to_insert db) \<noteq> None) \<longrightarrow>
      snd (insert_db dwithin fails (Some lat) (Some lon) pano_id db) = db)
   \<and> (\<not> prune_fault fails (find_nearest_query dwithin lat lon (to_insert db) \<noteq> None) \<longrightarrow>
      to_insert (snd (insert_db dwithin fails (Some lat) (Some lon) pano_id db)) =
        fst (prune_nearest dwithin lat lon (to_insert db)))"
proof (intro conjI impI)
  assume "fst (insert_db dwithin fails (Some lat) (Some lon) pano_id db) \<noteq> Inr True"
  then show "panoids (snd (insert_db dwithin fails (Some lat) (Some lon) pano_id db)) = panoids db"
    by (auto simp: insert_db_def commit_and_insert_def split: option.splits if_splits)
next
  assume "prune_fault fails (find_nearest_query dwithin lat lon (to_insert db) \<noteq> None)"
  then show "snd (insert_db dwithin fails (Some lat) (Some lon) pano_id db) = db"
    by (auto simp: insert_db_def commit_and_insert_def prune_fault_def split: option.splits)
next
  assume "\<not> prune_fault fails (find_nearest_query dwithin lat lon (to_insert db) \<noteq> None)"
  then show "to_insert (snd (insert_db dwithin fails (Some lat) (Some lon) pano_id db)) =
        fst (prune_nearest dwithin lat lon (to_insert db))"
    by (simp add: insert_db_to_insert)
qed

text \<open>
  The INSERT raises after the first commit: the call returns False and the frontier
  candidate is gone all the same.
\<close>

theorem insert_db_atomicity_counterexample:
  "insert_db planar_dwithin (\<lambda>s. s = InsertPanoid) (Some 48.6930) (Some 6.1855) (Some ''a'')
     \<lparr>to_insert =
        [\<lparr>ti_latitude = 48.6931, ti_longitude = 6.1855, ti_geom = Some (6.1855, 48.6931)\<rparr>],
      panoids = []\<rparr> =
   (Inr False, \<lparr>to_insert = [], panoids = []\<rparr>)"
  by (simp add: insert_db_def commit_and_insert_def find_nearest_query_def within_30_def
        planar_dwithin_def knn_sq_def power2_eq_square delete_query_def)

theorem insert_db_two_transactions_witness:
  "fst (insert_db planar_dwithin (\<lambda>s. s = CommitInsert) (Some 48.6930) (Some 6.1855) (Some ''a'')
     \<lparr>to_insert =
        [\<lparr>ti_latitude = 48.6931, ti_longitude = 6.1855, ti_geom = Some (6.1855, 48.6931)\<rparr>],
      panoids = []\<rparr>) \<noteq> Inr True
   \<and> panoids (snd (insert_db planar_dwithin (\<lambda>s. s = CommitInsert) (Some 48.6930) (Some 6.1855) (Some ''a'')
     \<lparr>to_insert =
        [\<lparr>ti_latitude = 48.6931, ti_longitude = 6.1855, ti_geom = Some (6.1855, 48.6931)\<rparr>],
      panoids = []\<rparr>)) = []
   \<and> to_insert (snd (insert_db planar_dwithin (\<lambda>s. s = CommitInsert) (Some 48.6930) (Some 6.1855) (Some ''a'')
     \<lparr>to_insert =
        [\<lparr>ti_latitude = 48.6931, ti_longitude = 6.1855, ti_geom = Some (6.1855, 48.6931)\<rparr>],
      panoids = []\<rparr>)) = []
   \<and> prune_fault (\<lambda>s. s = CommitPrune) True
   \<and> snd (insert_db planar_dwithin (\<lambda>s. s = CommitPrune) (Some 48.6930) (Some 6.1855) (Some ''a'')
     \<lparr>to_insert =
        [\<lparr>ti_latitude = 48.6931, ti_longitude = 6.1855, ti_geom = Some (6.1855, 48.6931)\<rparr>],
      panoids = []\<rparr>) =
     \<lparr>to_insert =
        [\<lparr>ti_latitude = 48.6931, ti_longitude = 6.1855, ti_geom = Some (6.1855, 48.6931)\<rparr>],
      panoids = []\<rparr>"
  using
    insert_db_two_transactions [of planar_dwithin "\<lambda>s. s = CommitInsert" "48.6930" "6.1855" "Some ''a''"
      "\<lparr>to_insert =
        [\<lparr>ti_latitude = 48.6931, ti_longitude = 6.1855, ti_geom = Some (6.1855, 48.6931)\<rparr>],
      panoids = []\<rparr>"]
    insert_db_two_transactions [of planar_dwithin "\<lambda>s. s = CommitPrune" "48.6930" "6.1855" "Some ''a''"
      "\<lparr>to_insert =
        [\<lparr>ti_latitude = 48.6931, ti_longitude = 6.1855, ti_geom = Some (6.1855, 48.6931)\<rparr>],
      panoids = []\<rparr>"]
  by (simp add: insert_db_def commit_and_insert_def find_nearest_query_def within_30_def
        planar_dwithin_def knn_sq_def power2_eq_square delete_query_def prune_fault_def
        prune_nearest_def)

text \<open>
  Claim C3, as the code has it: one prune deletes the rows that carry the coordinates of
  the nearest candidate within 30 metres, and no other row; its count is zero exactly when
  no candidate lies within 30 metres.
\<close>

theorem prune_nearest_removes_nearest_only:
  "(within_30 dwithin (lon, lat) rows = [] \<longrightarrow> prune_nearest dwithin lat lon rows = (rows, 0))
   \<and> (within_30 dwithin (lon, lat) rows \<noteq> [] \<longrightarrow>
        (\<exists>r g. r \<in> set rows \<and> ti_geom r = Some g \<and> dwithin g (lon, lat) 30
           \<and> (\<forall>r' g'. r' \<in> set rows \<and> ti_geom r' = Some g' \<and> dwithin g' (lon, lat) 30
                 \<longrightarrow> knn_sq g (lon, lat) \<le> knn_sq g' (lon, lat))
           \<and> fst (prune_nearest dwithin lat lon rows) =
               filter (\<lambda>r'. \<not> (ti_latitude r' = ti_latitude r \<and> ti_longitude r' = ti_longitude r)) rows)
        \<and> 0 < snd (prune_nearest dwithin lat lon rows))
   \<and> length (fst (prune_nearest dwithin lat lon rows)) + snd (prune_nearest dwithin lat lon rows)
       = length rows"
proof (intro conjI impI)
  assume "within_30 dwithin (lon, lat) rows = []"
  then show "prune_nearest dwithin lat lon rows = (rows, 0)"
    by (simp add: prune_nearest_def find_nearest_query_None[symmetric])
next
  assume ne: "within_30 dwithin (lon, lat) rows \<noteq> []"
  then obtain a b where f: "find_nearest_query dwithin lat lon rows = Some (a, b)"
    using find_nearest_query_None[of dwithin lat lon rows] by (cases "find_nearest_query dwithin lat lon rows") auto
  from find_nearest_query_row[OF f] obtain r g where
    r: "r \<in> set rows" "ti_geom r = Some g" "dwithin g (lon, lat) 30" "ti_latitude r = a" "ti_longitude r = b"
    and least: "\<forall>r' g'. r' \<in> set rows \<and> ti_geom r' = Some g' \<and> dwithin g' (lon, lat) 30
                 \<longrightarrow> knn_sq g (lon, lat) \<le> knn_sq g' (lon, lat)"
    by blast
  have "fst (prune_nearest dwithin lat lon rows) =
          filter (\<lambda>r'. \<not> (ti_latitude r' = ti_latitude r \<and> ti_longitude r' = ti_longitude r)) rows"
    using f r by (simp add: prune_nearest_def delete_query_def)
  with r least show "\<exists>r g. r \<in> set rows \<and> ti_geom r = Some g \<and> dwithin g (lon, lat) 30
           \<and> (\<forall>r' g'. r' \<in> set rows \<and> ti_geom r' = Some g' \<and> dwithin g' (lon, lat) 30
                 \<longrightarrow> knn_sq g (lon, lat) \<le> knn_sq g' (lon, lat))
           \<and> fst (prune_nearest dwithin lat lon rows) =
               filter (\<lambda>r'. \<not> (ti_latitude r' = ti_latitude r \<and> ti_longitude r' = ti_longitude r)) rows"
    by blast
  from ne show "0 < snd (prune_nearest dwithin lat lon rows)"
    using prune_count_zero[of dwithin lat lon rows] by simp
next
  show "length (fst (prune_nearest dwithin lat lon rows)) + snd (prune_nearest dwithin lat lon rows)
       = length rows"
    by (rule prune_count_length)
qed

text \<open>
  Two candidates 11 and 22 metres north of the point: the first prune removes only the
  nearer one, and the second prune, with the same arguments, removes the other and counts 1.
\<close>

theorem prune_near_counterexample:
  "prune_nearest planar_dwithin 48.6930 6.1855
     [\<lparr>ti_latitude = 48.6931, ti_longitude = 6.1855, ti_geom = Some (6.1855, 48.6931)\<rparr>,
      \<lparr>ti_latitude = 48.6932, ti_longitude = 6.1855, ti_geom = Some (6.1855, 48.6932)\<rparr>] =
     ([\<lparr>ti_latitude = 48.6932, ti_longitude = 6.1855, ti_geom = Some (6.1855, 48.6932)\<rparr>], 1)
   \<and> planar_dwithin (6.1855, 48.6932) (6.1855, 48.6930) 30
   \<and> prune_nearest planar_dwithin 48.6930 6.1855
     [\<lparr>ti_latitude = 48.6932, ti_longitude = 6.1855, ti_geom = Some (6.1855, 48.6932)\<rparr>] =
     ([], 1)"
  by (simp add: prune_nearest_def find_nearest_query_def within_30_def planar_dwithin_def
        knn_sq_def delete_query_def power2_eq_square)

theorem prune_nearest_removes_nearest_only_witness:
  "within_30 planar_dwithin (6.1855, 48.6930)
     [\<lparr>ti_latitude = 48.6931, ti_longitude = 6.1855, ti_geom = Some (6.1855, 48.6931)\<rparr>] \<noteq> []
   \<and> 0 < snd (prune_nearest planar_dwithin 48.6930 6.1855
     [\<lparr>ti_latitude = 48.6931, ti_longitude = 6.1855, ti_geom = Some (6.1855, 48.6931)\<rparr>])
   \<and> within_30 planar_dwithin (6.1855, 48.6930) [] = []
   \<and> prune_nearest planar_dwithin 48.6930 6.1855 [] = ([], 0)"
  using
    prune_nearest_removes_nearest_only [of planar_dwithin "6.1855" "48.6930"
      "[\<lparr>ti_latitude = 48.6931, ti_longitude = 6.1855, ti_geom = Some (6.1855, 48.6931)\<rparr>]"]
    prune_nearest_removes_nearest_only [of planar_dwithin "6.1855" "48.6930" "[]"]
  by (simp add: within_30_def planar_dwithin_def knn_sq_def power2_eq_square)

lemma get_starting_coordinates_keeps_db:
  "snd (get_starting_coordinates fails db) = db"
  by (simp add: get_starting_coordinates_def split: list.splits)

text \<open>
  Claim C4: \<^verbatim>\<open>get_starting_coordinates\<close> returns the first row of a non-empty frontier, but
  the row stays in \<^verbatim>\<open>to_insert\<close>, so the next call returns it again.
\<close>

theorem get_starting_coordinates_does_not_remove:
  "get_starting_coordinates no_fault
     \<lparr>to_insert = [\<lparr>ti_latitude = 48.6931, ti_longitude = 6.1855, ti_geom = None\<rparr>],
      panoids = []\<rparr> =
   ((Some 48.6931, Some 6.1855),
     \<lparr>to_insert = [\<lparr>ti_latitude = 48.6931, ti_longitude = 6.1855, ti_geom = None\<rparr>],
      panoids = []\<rparr>)
   \<and> fst (get_starting_coordinates no_fault
       (snd (get_starting_coordinates no_fault
     \<lparr>to_insert = [\<lparr>ti_latitude = 48.6931, ti_longitude = 6.1855, ti_geom = None\<rparr>],
      panoids = []\<rparr>))) = (Some 48.6931, Some 6.1855)"
  by (simp add: get_starting_coordinates_def no_fault_def)


section \<open>Properties of the geofence\<close>

lemma R_nancy_sq: "R_nancy * R_nancy = 2138830109 / 1000000000000"
proof -
  have "R_nancy * R_nancy = R_nancy\<^sup>2" by (simp add: power2_eq_square)
  also have "\<dots> = (latcenter_nancy - 48.667770)\<^sup>2 + (6.146822 - longcenter_nancy)\<^sup>2"
    by (simp add: R_nancy_def)
  also have "\<dots> = 2138830109 / 1000000000000"
    by (simp add: latcenter_nancy_def longcenter_nancy_def power2_eq_square)
  finally show ?thesis .
qed

subsection \<open>Binary64 arithmetic\<close>

lemma exp2_powi: "exp2 e = 2 powi e"
  by (simp add: exp2_def power_int_def inverse_eq_divide power_one_over)

lemma exp2_pos: "0 < exp2 e"
  by (simp add: exp2_powi)

lemma exp2_strict_mono: "a < b \<Longrightarrow> exp2 a < exp2 b"
  by (simp add: exp2_powi power_int_strict_increasing)

lemma exp2_mono: "a \<le> b \<Longrightarrow> exp2 a \<le> exp2 b"
  by (simp add: exp2_powi power_int_increasing)

lemma exp2_diff: "exp2 (a - b) = exp2 a / exp2 b"
  by (simp add: exp2_powi power_int_diff)

lemma exp2_nat: "0 \<le> e \<Longrightarrow> exp2 e = 2 ^ nat e"
  by (simp add: exp2_def)

lemma of_int_bitlen_bounds:
  assumes "0 < p"
  shows "exp2 (bitlen p - 1) \<le> of_int p" and "of_int p < exp2 (bitlen p)"
proof -
  from assms have b: "1 \<le> bitlen p"
    using bitlen_eq_zero_iff[of p] bitlen_nonneg[of p] by linarith
  from bitlen_bounds[OF assms] have lo: "2 ^ nat (bitlen p - 1) \<le> p" and hi: "p < 2 ^ nat (bitlen p)"
    by simp_all
  have "exp2 (bitlen p - 1) = of_int (2 ^ nat (bitlen p - 1))"
    using b by (simp add: exp2_nat)
  also have "\<dots> \<le> of_int p" using lo by (simp only: of_int_le_iff)
  finally show "exp2 (bitlen p - 1) \<le> of_int p" .
  have "(of_int p :: rat) < of_int (2 ^ nat (bitlen p))" using hi by (simp only: of_int_less_iff)
  also have "\<dots> = exp2 (bitlen p)" using b by (simp add: exp2_nat)
  finally show "of_int p < exp2 (bitlen p)" .
qed

lemma ilog2_bounds:
  assumes "0 < x"
  shows "exp2 (ilog2 x) \<le> x \<and> x < exp2 (ilog2 x + 1)"
proof -
  obtain p q where pq: "quotient_of x = (p, q)" by (cases "quotient_of x")
  have q: "0 < q" using quotient_of_denom_pos[OF pq] .
  have x: "x = of_int p / of_int q" using quotient_of_div[OF pq] .
  have p: "0 < p" using assms q unfolding x by (simp add: zero_less_divide_iff)
  define k where "k = bitlen p - bitlen q"
  have qpos: "(0::rat) < of_int q" using q by simp
  have up: "x < exp2 (k + 1)"
  proof -
    have "x < exp2 (bitlen p) / of_int q"
      unfolding x using of_int_bitlen_bounds(2)[OF p] qpos by (simp add: divide_strict_right_mono)
    also have "\<dots> \<le> exp2 (bitlen p) / exp2 (bitlen q - 1)"
      using of_int_bitlen_bounds(1)[OF q] exp2_pos[of "bitlen p"] exp2_pos[of "bitlen q - 1"]
      by (simp add: frac_le)
    also have "\<dots> = exp2 (k + 1)"
      unfolding k_def exp2_diff[symmetric] by (simp add: algebra_simps)
    finally show ?thesis .
  qed
  have lo: "exp2 (k - 1) \<le> x"
  proof -
    have "exp2 (k - 1) = exp2 (bitlen p - 1) / exp2 (bitlen q)"
      unfolding k_def exp2_diff[symmetric] by (simp add: algebra_simps)
    also have "\<dots> \<le> of_int p / exp2 (bitlen q)"
      using of_int_bitlen_bounds(1)[OF p] exp2_pos[of "bitlen q"] by (simp add: divide_right_mono)
    also have "\<dots> \<le> of_int p / of_int q"
      using of_int_bitlen_bounds(2)[OF q] p qpos by (simp add: frac_le)
    finally show ?thesis unfolding x .
  qed
  have il: "ilog2 x = (if exp2 k \<le> x then k else k - 1)"
    by (simp add: ilog2_def pq k_def Let_def)
  show ?thesis
  proof (cases "exp2 k \<le> x")
    case True
    with il up show ?thesis by simp
  next
    case False
    with il lo show ?thesis by simp
  qed
qed

lemma ilog2_eqI:
  assumes "exp2 e \<le> x" and "x < exp2 (e + 1)"
  shows "ilog2 x = e"
proof -
  have pos: "0 < x" using exp2_pos[of e] assms(1) by simp
  from ilog2_bounds[OF pos] have b: "exp2 (ilog2 x) \<le> x" "x < exp2 (ilog2 x + 1)" by simp_all
  show ?thesis
  proof (rule ccontr)
    assume "ilog2 x \<noteq> e"
    then consider "ilog2 x + 1 \<le> e" | "e + 1 \<le> ilog2 x" by linarith
    then show False
    proof cases
      case 1
      from exp2_mono[OF 1] b(2) assms(1) show False by simp
    next
      case 2
      from exp2_mono[OF 2] b(1) assms(2) show False by simp
    qed
  qed
qed

lemma isqrt_bits_correct:
  "0 \<le> r \<Longrightarrow> r\<^sup>2 \<le> n \<Longrightarrow> n < (r + 2 ^ Suc i)\<^sup>2 \<Longrightarrow>
     0 \<le> isqrt_bits i n r \<and> (isqrt_bits i n r)\<^sup>2 \<le> n \<and> n < (isqrt_bits i n r + 1)\<^sup>2"
proof (induction i arbitrary: r)
  case 0
  then show ?case by (auto simp: power2_eq_square algebra_simps)
next
  case (Suc i)
  show ?case
  proof (cases "(r + 2 ^ Suc i)\<^sup>2 \<le> n")
    case True
    have "n < (r + 2 ^ Suc i + 2 ^ Suc i)\<^sup>2" using Suc.prems(3) by (simp add: algebra_simps)
    with True Suc.prems(1) Suc.IH[of "r + 2 ^ Suc i"] show ?thesis by simp
  next
    case False
    with Suc.prems Suc.IH[of r] show ?thesis by simp
  qed
qed

lemma isqrt_correct:
  assumes "0 \<le> n"
  shows "0 \<le> isqrt n \<and> (isqrt n)\<^sup>2 \<le> n \<and> n < (isqrt n + 1)\<^sup>2"
proof -
  have "n < 2 ^ nat (bitlen n)"
  proof (cases "n = 0")
    case True
    then show ?thesis by simp
  next
    case False
    with assms bitlen_bounds[of n] show ?thesis by simp
  qed
  also have "(2::int) ^ nat (bitlen n) \<le> (2 ^ Suc (nat (bitlen n)))\<^sup>2"
    by (simp add: power2_eq_square power_add[symmetric] del: power_Suc)
  finally have "n < (0 + 2 ^ Suc (nat (bitlen n)))\<^sup>2" by simp
  from isqrt_bits_correct[OF _ _ this] assms show ?thesis by (simp add: isqrt_def)
qed

lemma isqrt_eqI:
  assumes "0 \<le> r" and "r\<^sup>2 \<le> n" and "n < (r + 1)\<^sup>2"
  shows "isqrt n = r"
proof -
  have n: "0 \<le> n" using assms(2) zero_le_power2[of r] by linarith
  from isqrt_correct[OF n] have s: "0 \<le> isqrt n" "(isqrt n)\<^sup>2 \<le> n" "n < (isqrt n + 1)\<^sup>2"
    by simp_all
  show ?thesis
  proof (rule ccontr)
    assume "isqrt n \<noteq> r"
    then consider "isqrt n + 1 \<le> r" | "r + 1 \<le> isqrt n" by linarith
    then show False
    proof cases
      case 1
      then have "(isqrt n + 1)\<^sup>2 \<le> r\<^sup>2" using s(1) by (intro power_mono) auto
      with s(3) assms(2) show False by simp
    next
      case 2
      then have "(r + 1)\<^sup>2 \<le> (isqrt n)\<^sup>2" using assms(1) by (intro power_mono) auto
      with s(2) assms(3) show False by simp
    qed
  qed
qed


lemma round_half_even_eqI:
  assumes "of_int n - 1 / 2 < r" and "r < of_int n + 1 / 2"
  shows "round_half_even r = n"
proof (cases "of_int n \<le> r")
  case True
  then have f: "\<lfloor>r\<rfloor> = n" using assms(2) by (simp add: floor_eq_iff)
  show ?thesis using assms(2) by (simp add: round_half_even_def f Let_def)
next
  case False
  then have f: "\<lfloor>r\<rfloor> = n - 1" using assms(1) by (simp add: floor_eq_iff)
  show ?thesis using assms(1) by (simp add: round_half_even_def f Let_def)
qed

text \<open>
  Evaluating a rounding: once the binary exponent and the rounded significand are given,
  the conditions are comparisons of numerals.
\<close>

lemma to_binary64_zero: "to_binary64 0 = Finite 0"
  by (simp add: to_binary64_def fl64_def)

lemma round_half_even_tie_even:
  assumes "r = of_int n + 1 / 2" and "even n"
  shows "round_half_even r = n"
proof -
  have f: "\<lfloor>r\<rfloor> = n" using assms(1) by (simp add: floor_eq_iff)
  have d: "r - of_int n = 1 / 2" using assms(1) by simp
  show ?thesis unfolding round_half_even_def Let_def f d using assms(2) by simp
qed

lemma round_half_even_tie_odd:
  assumes "r = of_int f + 1 / 2" and "odd f" and "n = f + 1"
  shows "round_half_even r = n"
proof -
  have f: "\<lfloor>r\<rfloor> = f" using assms(1) by (simp add: floor_eq_iff)
  have d: "r - of_int f = 1 / 2" using assms(1) by simp
  show ?thesis unfolding round_half_even_def Let_def f d using assms(2,3) by simp
qed

lemma to_binary64_eval:
  assumes "round_half_even (x / exp2 (e - 52)) = n"
    and "exp2 e \<le> \<bar>x\<bar>" and "\<bar>x\<bar> < exp2 (e + 1)" and "- 1022 \<le> e"
    and "y = of_int n * exp2 (e - 52)"
    and "exp2 e' \<le> \<bar>y\<bar>" and "\<bar>y\<bar> < exp2 (e' + 1)" and "e' < 1024"
  shows "to_binary64 x = Finite y"
proof -
  have "x \<noteq> 0" using assms(2) exp2_pos[of e] by auto
  moreover have "ilog2 \<bar>x\<bar> = e" using assms(2,3) by (rule ilog2_eqI)
  ultimately have y: "fl64 x = y" using assms(1,4,5) by (simp add: fl64_def Let_def max_def)
  have "y \<noteq> 0" using assms(6) exp2_pos[of e'] by auto
  moreover have "ilog2 \<bar>y\<bar> = e'" using assms(6,7) by (rule ilog2_eqI)
  ultimately show ?thesis using assms(8) by (simp add: to_binary64_def y Let_def)
qed

lemma fl64_sqrt_up:
  assumes "exp2 e \<le> x" and "x < exp2 (e + 1)"
    and "0 \<le> n"
    and "of_int (n\<^sup>2) \<le> x / (exp2 (e div 2 - 52) * exp2 (e div 2 - 52))"
    and "x / (exp2 (e div 2 - 52) * exp2 (e div 2 - 52)) < of_int ((n + 1)\<^sup>2)"
    and "(of_int n + 1 / 2) * (of_int n + 1 / 2) < x / (exp2 (e div 2 - 52) * exp2 (e div 2 - 52))"
    and "y = of_int (n + 1) * exp2 (e div 2 - 52)"
  shows "fl64_sqrt x = y"
proof -
  have il: "ilog2 x = e" using assms(1,2) by (rule ilog2_eqI)
  have "n\<^sup>2 \<le> \<lfloor>x / (exp2 (e div 2 - 52) * exp2 (e div 2 - 52))\<rfloor>"
    using assms(4) by (simp only: le_floor_iff)
  moreover have "\<lfloor>x / (exp2 (e div 2 - 52) * exp2 (e div 2 - 52))\<rfloor> < (n + 1)\<^sup>2"
    using assms(5) by (simp only: floor_less_iff)
  ultimately have isq: "isqrt \<lfloor>x / (exp2 (e div 2 - 52) * exp2 (e div 2 - 52))\<rfloor> = n"
    using assms(3) by (intro isqrt_eqI)
  have "\<not> x / (exp2 (e div 2 - 52) * exp2 (e div 2 - 52)) < (of_int n + 1 / 2) * (of_int n + 1 / 2)"
    using assms(6) by simp
  then show ?thesis
    unfolding fl64_sqrt_def Let_def il isq assms(7) using assms(6) by (simp only: if_False if_True)
qed

text \<open>The roundings that the three calls of the scenario and the radius perform.\<close>

lemma round_1: "to_binary64 (48693167 / 1000000) = Finite (3426477011823271 / 70368744177664)"
proof (rule to_binary64_eval[where e="5" and n="6852954023646542" and e'="5"])
  show "round_half_even (48693167 / 1000000 / exp2 (5 - 52)) = 6852954023646542"
    by (rule round_half_even_eqI) (simp_all add: exp2_def)
qed (simp_all add: exp2_def)

lemma round_2: "to_binary64 (96648 / 15625) = Finite (6964222348577659 / 1125899906842624)"
proof (rule to_binary64_eval[where e="2" and n="6964222348577659" and e'="2"])
  show "round_half_even (96648 / 15625 / exp2 (2 - 52)) = 6964222348577659"
    by (rule round_half_even_eqI) (simp_all add: exp2_def)
qed (simp_all add: exp2_def)

lemma round_3: "to_binary64 (4866777 / 100000) = Finite (6849379713654781 / 140737488355328)"
proof (rule to_binary64_eval[where e="5" and n="6849379713654781" and e'="5"])
  show "round_half_even (4866777 / 100000 / exp2 (5 - 52)) = 6849379713654781"
    by (rule round_half_even_eqI) (simp_all add: exp2_def)
qed (simp_all add: exp2_def)

lemma round_4: "to_binary64 (3574309991761 / 140737488355328) = Finite (3574309991761 / 140737488355328)"
proof (rule to_binary64_eval[where e="-6" and n="7320186863126528" and e'="-6"])
  show "round_half_even (3574309991761 / 140737488355328 / exp2 (-6 - 52)) = 7320186863126528"
    by (rule round_half_even_eqI) (simp_all add: exp2_def)
qed (simp_all add: exp2_def)

lemma round_5: "to_binary64 (12775691917202519887881121 / 19807040628566084398385987584) = Finite (5949145144411605 / 9223372036854775808)"
proof (rule to_binary64_eval[where e="-11" and n="5949145144411605" and e'="-11"])
  show "round_half_even (12775691917202519887881121 / 19807040628566084398385987584 / exp2 (-11 - 52)) = 5949145144411605"
    by (rule round_half_even_eqI) (simp_all add: exp2_def)
qed (simp_all add: exp2_def)

lemma round_6: "to_binary64 (3073411 / 500000) = Finite (432544144823637 / 70368744177664)"
proof (rule to_binary64_eval[where e="2" and n="6920706317178192" and e'="2"])
  show "round_half_even (3073411 / 500000 / exp2 (2 - 52)) = 6920706317178192"
    by (rule round_half_even_eqI) (simp_all add: exp2_def)
qed (simp_all add: exp2_def)

lemma round_7: "to_binary64 (- (43516031399467 / 1125899906842624)) = Finite (- (43516031399467 / 1125899906842624))"
proof (rule to_binary64_eval[where e="-5" and n="-5570052019131776" and e'="-5"])
  show "round_half_even ((- (43516031399467 / 1125899906842624)) / exp2 (-5 - 52)) = -5570052019131776"
    by (rule round_half_even_eqI) (simp_all add: exp2_def)
qed (simp_all add: exp2_def)

lemma round_8: "to_binary64 (1893644988759397870527884089 / 1267650600228229401496703205376) = Finite (3444520168631057 / 2305843009213693952)"
proof (rule to_binary64_eval[where e="-10" and n="6889040337262114" and e'="-10"])
  show "round_half_even (1893644988759397870527884089 / 1267650600228229401496703205376 / exp2 (-10 - 52)) = 6889040337262114"
    by (rule round_half_even_eqI) (simp_all add: exp2_def)
qed (simp_all add: exp2_def)

lemma round_9: "to_binary64 (19727225818935833 / 9223372036854775808) = Finite (2465903227366979 / 1152921504606846976)"
proof (rule to_binary64_eval[where e="-9" and n="4931806454733958" and e'="-9"])
  show "round_half_even (19727225818935833 / 9223372036854775808 / exp2 (-9 - 52)) = 4931806454733958"
    by (rule round_half_even_eqI) (simp_all add: exp2_def)
qed (simp_all add: exp2_def)

lemma round_10: "to_binary64 (11105440855901630354877198824281 / 5192296858534827628530496329220096) = Finite (2465903227366979 / 1152921504606846976)"
proof (rule to_binary64_eval[where e="-9" and n="4931806454733958" and e'="-9"])
  show "round_half_even (11105440855901630354877198824281 / 5192296858534827628530496329220096 / exp2 (-9 - 52)) = 4931806454733958"
    by (rule round_half_even_eqI) (simp_all add: exp2_def)
qed (simp_all add: exp2_def)

lemma round_11: "to_binary64 (- (3574309991761 / 140737488355328)) = Finite (- (3574309991761 / 140737488355328))"
proof (rule to_binary64_eval[where e="-6" and n="-7320186863126528" and e'="-6"])
  show "round_half_even ((- (3574309991761 / 140737488355328)) / exp2 (-6 - 52)) = -7320186863126528"
    by (rule round_half_even_eqI) (simp_all add: exp2_def)
qed (simp_all add: exp2_def)

lemma round_12: "to_binary64 (1527043 / 250000) = Finite (1719297571444681 / 281474976710656)"
proof (rule to_binary64_eval[where e="2" and n="6877190285778724" and e'="2"])
  show "round_half_even (1527043 / 250000 / exp2 (2 - 52)) = 6877190285778724"
    by (rule round_half_even_eqI) (simp_all add: exp2_def)
qed (simp_all add: exp2_def)

lemma round_13: "to_binary64 (- (87032062798935 / 1125899906842624)) = Finite (- (87032062798935 / 1125899906842624))"
proof (rule to_binary64_eval[where e="-4" and n="-5570052019131840" and e'="-4"])
  show "round_half_even ((- (87032062798935 / 1125899906842624)) / exp2 (-4 - 52)) = -5570052019131840"
    by (rule round_half_even_eqI) (simp_all add: exp2_def)
qed (simp_all add: exp2_def)

lemma round_14: "to_binary64 (7574579955037765546237134225 / 1267650600228229401496703205376) = Finite (6889040337262273 / 1152921504606846976)"
proof (rule to_binary64_eval[where e="-8" and n="6889040337262273" and e'="-8"])
  show "round_half_even (7574579955037765546237134225 / 1267650600228229401496703205376 / exp2 (-8 - 52)) = 6889040337262273"
    by (rule round_half_even_eqI) (simp_all add: exp2_def)
qed (simp_all add: exp2_def)

lemma round_15: "to_binary64 (48642373 / 1000000) = Finite (6845805403663021 / 140737488355328)"
proof (rule to_binary64_eval[where e="5" and n="6845805403663021" and e'="5"])
  show "round_half_even (48642373 / 1000000 / exp2 (5 - 52)) = 6845805403663021"
    by (rule round_half_even_eqI) (simp_all add: exp2_def)
qed (simp_all add: exp2_def)

lemma round_16: "to_binary64 (- (7148619983521 / 140737488355328)) = Finite (- (7148619983521 / 140737488355328))"
proof (rule to_binary64_eval[where e="-5" and n="-7320186863125504" and e'="-5"])
  show "round_half_even ((- (7148619983521 / 140737488355328)) / exp2 (-5 - 52)) = -7320186863125504"
    by (rule round_half_even_eqI) (simp_all add: exp2_def)
qed (simp_all add: exp2_def)

lemma round_17: "to_binary64 (51102767668795782311557441 / 19807040628566084398385987584) = Finite (1487286286102485 / 576460752303423488)"
proof (rule to_binary64_eval[where e="-9" and n="5949145144409940" and e'="-9"])
  show "round_half_even (51102767668795782311557441 / 19807040628566084398385987584 / exp2 (-9 - 52)) = 5949145144409940"
    by (rule round_half_even_eqI) (simp_all add: exp2_def)
qed (simp_all add: exp2_def)

lemma round_18: "to_binary64 (9863612909467243 / 1152921504606846976) = Finite (2465903227366811 / 288230376151711744)"
proof (rule to_binary64_eval[where e="-7" and n="4931806454733622" and e'="-7"])
  show "round_half_even (9863612909467243 / 1152921504606846976 / exp2 (-7 - 52)) = 4931806454733622"
    by (rule round_half_even_tie_odd[where f="4931806454733621"]) (simp_all add: exp2_def)
qed (simp_all add: exp2_def)

lemma sqrt_1: "fl64_sqrt (2465903227366979 / 1152921504606846976) = 3332482686511909 / 72057594037927936"
  by (rule fl64_sqrt_up[where e="-9" and n="6664965373023817"]) (simp_all add: exp2_def)

lemmas binary64_values = to_binary64_zero round_1 round_2 round_3 round_4 round_5 round_6 round_7 round_8 round_9 round_10 round_11 round_12 round_13 round_14 round_15 round_16 round_17 round_18 sqrt_1

lemma R_nancy_binary64_value:
  "R_nancy_binary64 = Inr (Finite (3332482686511909 / 72057594037927936))"
  by (simp add: R_nancy_binary64_def latcenter_nancy_binary64_def longcenter_nancy_binary64_def
        f_sub_def binary64_values)

subsection \<open>The scenario\<close>

text \<open>
  Claim C8: the centre of the fence is inside; the point \<open>(48.667770, 6.146822)\<close>, from which
  the radius is computed, is at squared distance exactly \<open>R_nancy\<^sup>2\<close> and is inside; the
  point twice as far from the centre in the same direction, \<open>(48.642373, 6.108172)\<close>, is
  outside. The three answers are the same over the reals and in binary64 arithmetic.
\<close>

theorem in_nancy_scenario:
  "in_nancy 48.693167 6.185472
   \<and> (6.146822 - longcenter_nancy)\<^sup>2 + (48.667770 - latcenter_nancy)\<^sup>2 = R_nancy\<^sup>2
   \<and> in_nancy 48.667770 6.146822
   \<and> 48.642373 - latcenter_nancy = 2 * (48.667770 - latcenter_nancy)
   \<and> 6.108172 - longcenter_nancy = 2 * (6.146822 - longcenter_nancy)
   \<and> \<not> in_nancy 48.642373 6.108172
   \<and> in_nancy_binary64 (to_binary64 48.693167) (to_binary64 6.185472) = Inr True
   \<and> in_nancy_binary64 (to_binary64 48.667770) (to_binary64 6.146822) = Inr True
   \<and> in_nancy_binary64 (to_binary64 48.642373) (to_binary64 6.108172) = Inr False"
proof -
  have "in_nancy 48.693167 6.185472
   \<and> (6.146822 - longcenter_nancy)\<^sup>2 + (48.667770 - latcenter_nancy)\<^sup>2 = R_nancy\<^sup>2
   \<and> in_nancy 48.667770 6.146822
   \<and> 48.642373 - latcenter_nancy = 2 * (48.667770 - latcenter_nancy)
   \<and> 6.108172 - longcenter_nancy = 2 * (6.146822 - longcenter_nancy)
   \<and> \<not> in_nancy 48.642373 6.108172"
    by (simp add: in_nancy_def latcenter_nancy_def longcenter_nancy_def power2_eq_square
          R_nancy_sq)
  moreover have "in_nancy_binary64 (to_binary64 48.693167) (to_binary64 6.185472) = Inr True
   \<and> in_nancy_binary64 (to_binary64 48.667770) (to_binary64 6.146822) = Inr True
   \<and> in_nancy_binary64 (to_binary64 48.642373) (to_binary64 6.108172) = Inr False"
    by (simp add: in_nancy_binary64_def R_nancy_binary64_value latcenter_nancy_binary64_def
          longcenter_nancy_binary64_def f_sub_def binary64_values)
  ultimately show ?thesis by simp
qed

lemma in_nancy_center: "in_nancy latcenter_nancy longcenter_nancy"
  by (simp add: in_nancy_def)

lemma in_nancy_twice_as_far:
  assumes "(long - longcenter_nancy)\<^sup>2 + (lat - latcenter_nancy)\<^sup>2 = R_nancy\<^sup>2"
  shows "in_nancy lat long"
    and "\<not> in_nancy (latcenter_nancy + 2 * (lat - latcenter_nancy))
                 (longcenter_nancy + 2 * (long - longcenter_nancy))"
proof -
  show "in_nancy lat long" using assms by (simp add: in_nancy_def)
  have pos: "0 < R_nancy\<^sup>2"
    using R_nancy_sq by (simp add: power2_eq_square)
  have "(longcenter_nancy + 2 * (long - longcenter_nancy) - longcenter_nancy)\<^sup>2
        + (latcenter_nancy + 2 * (lat - latcenter_nancy) - latcenter_nancy)\<^sup>2
        = 4 * R_nancy\<^sup>2"
    using assms by (simp add: power2_eq_square algebra_simps)
  with pos show "\<not> in_nancy (latcenter_nancy + 2 * (lat - latcenter_nancy))
                 (longcenter_nancy + 2 * (long - longcenter_nancy))"
    by (simp add: in_nancy_def)
qed

section \<open>Properties of the URL parser\<close>

lemma strip_prefix_Some: "(strip_prefix lit s = Some r) = (s = lit @ r)"
proof
  assume "strip_prefix lit s = Some r"
  then have "take (length lit) s = lit" "drop (length lit) s = r"
    by (auto simp: strip_prefix_def split: if_splits)
  then show "s = lit @ r" using append_take_drop_id[of "length lit" s] by simp
next
  assume "s = lit @ r"
  then show "strip_prefix lit s = Some r" by (simp add: strip_prefix_def)
qed

lemma strip_prefix_append: "strip_prefix lit (lit @ r) = Some r"
  by (simp add: strip_prefix_Some)

lemma takeWhile_run:
  "list_all P a \<Longrightarrow> \<not> P c \<Longrightarrow> takeWhile P (a @ c # r) = a"
  by (induction a) auto

lemma dropWhile_run:
  "list_all P a \<Longrightarrow> \<not> P c \<Longrightarrow> dropWhile P (a @ c # r) = c # r"
  by (induction a) auto

lemma not_digit_dot: "\<not> is_digit CHR ''.''" by (simp add: is_digit_def)
lemma not_digit_comma: "\<not> is_digit CHR '',''" by (simp add: is_digit_def)
lemma not_digit_minus: "\<not> is_digit CHR ''-''" by (simp add: is_digit_def)

lemma list_all_takeWhile: "list_all P (takeWhile P xs)"
  by (induction xs) auto

lemma match_number_complete:
  assumes "decimal n" and "\<not> is_digit c"
  shows "match_number (n @ c # post) = Some (n, c # post)"
proof -
  from assms(1) obtain sg a b where n: "n = sg @ a @ ''.'' @ b" and sg: "sg = [] \<or> sg = ''-''"
    and ne: "a \<noteq> []" "b \<noteq> []" and d: "list_all is_digit a" "list_all is_digit b"
    by (auto simp: decimal_def)
  have ta: "takeWhile is_digit (a @ CHR ''.'' # b @ c # post) = a"
    and da: "dropWhile is_digit (a @ CHR ''.'' # b @ c # post) = CHR ''.'' # b @ c # post"
    using d(1) not_digit_dot by (simp_all add: takeWhile_run dropWhile_run)
  have tb: "takeWhile is_digit (b @ c # post) = b"
    and db: "dropWhile is_digit (b @ c # post) = c # post"
    using d(2) assms(2) by (simp_all add: takeWhile_run dropWhile_run)
  from sg show ?thesis
  proof
    assume "sg = []"
    moreover obtain x a' where a: "a = x # a'" using ne(1) by (cases a) auto
    moreover have "x \<noteq> CHR ''-''" using d(1) a not_digit_minus by auto
    ultimately show ?thesis
      using ta da tb db ne unfolding n match_number_def by (simp add: a)
  next
    assume "sg = ''-''"
    then show ?thesis
      using ta da tb db ne unfolding n match_number_def by simp
  qed
qed

lemma match_number_sound:
  assumes "match_number s = Some (w, r)"
  shows "s = w @ r \<and> decimal w"
proof -
  define sg where "sg = (if s \<noteq> [] \<and> hd s = CHR ''-'' then ''-'' else [])"
  define s1 where "s1 = (if s \<noteq> [] \<and> hd s = CHR ''-'' then tl s else s)"
  have split: "(case s of [] \<Rightarrow> ([], s) | c # t \<Rightarrow> if c = CHR ''-'' then ([c], t) else ([], s)) = (sg, s1)"
    by (cases s) (auto simp: sg_def s1_def)
  have s: "s = sg @ s1" by (cases s) (auto simp: sg_def s1_def)
  from assms obtain c s2 where
    ip: "takeWhile is_digit s1 \<noteq> []" and dw: "dropWhile is_digit s1 = c # s2"
    and c: "c = CHR ''.''" and fp: "takeWhile is_digit s2 \<noteq> []"
    and w: "w = sg @ takeWhile is_digit s1 @ [c] @ takeWhile is_digit s2"
    and r: "r = dropWhile is_digit s2"
    unfolding match_number_def split
    by (auto simp: Let_def split: if_splits list.splits)
  have "s1 = takeWhile is_digit s1 @ c # s2" using dw takeWhile_dropWhile_id[of is_digit s1] by simp
  moreover have "s2 = takeWhile is_digit s2 @ r" using r by simp
  ultimately have "s = w @ r" using s w by simp
  moreover have "decimal w"
    unfolding decimal_def
    apply (rule exI[of _ sg], rule exI[of _ "takeWhile is_digit s1"], rule exI[of _ "takeWhile is_digit s2"])
    using w c ip fp by (auto simp: list_all_takeWhile sg_def)
  ultimately show ?thesis by simp
qed

lemma match_lat_lon_sound:
  assumes "match_lat_lon s = Some (g1, g2)"
  shows "\<exists>post. s = ''/@'' @ g1 @ '','' @ g2 @ '','' @ post \<and> decimal g1 \<and> decimal g2"
proof -
  from assms obtain s1 s2 s3 s4 s5 where
    a: "strip_prefix ''/@'' s = Some s1" and b: "match_number s1 = Some (g1, s2)"
    and c: "strip_prefix '','' s2 = Some s3" and d: "match_number s3 = Some (g2, s4)"
    and e: "strip_prefix '','' s4 = Some s5"
    by (auto simp: match_lat_lon_def split: option.splits)
  from a c e have "s = ''/@'' @ s1" "s2 = '','' @ s3" "s4 = '','' @ s5"
    by (simp_all add: strip_prefix_Some)
  moreover from match_number_sound[OF b] match_number_sound[OF d]
  have "s1 = g1 @ s2" "decimal g1" "s3 = g2 @ s4" "decimal g2" by simp_all
  ultimately show ?thesis by auto
qed

lemma match_lat_lon_complete:
  assumes "decimal n1" "decimal n2"
  shows "match_lat_lon (''/@'' @ n1 @ '','' @ n2 @ '','' @ post) = Some (n1, n2)"
proof -
  have 1: "strip_prefix ''/@'' (''/@'' @ n1 @ '','' @ n2 @ '','' @ post) = Some (n1 @ '','' @ n2 @ '','' @ post)"
    by (rule strip_prefix_append)
  have 2: "match_number (n1 @ '','' @ n2 @ '','' @ post) = Some (n1, '','' @ n2 @ '','' @ post)"
    using match_number_complete[OF assms(1) not_digit_comma] by simp
  have 3: "strip_prefix '','' ('','' @ n2 @ '','' @ post) = Some (n2 @ '','' @ post)"
    by (rule strip_prefix_append)
  have 4: "match_number (n2 @ '','' @ post) = Some (n2, '','' @ post)"
    using match_number_complete[OF assms(2) not_digit_comma] by simp
  have 5: "strip_prefix '','' ('','' @ post) = Some post"
    by (rule strip_prefix_append)
  show ?thesis using 1 2 3 4 5 by (simp add: match_lat_lon_def)
qed

lemma re_search_sound: "re_search m s = Some g \<Longrightarrow> \<exists>pre t. s = pre @ t \<and> m t = Some g"
proof (induction s)
  case Nil
  then show ?case by simp
next
  case (Cons c cs)
  show ?case
  proof (cases "m (c # cs)")
    case None
    with Cons obtain pre t where "cs = pre @ t" "m t = Some g" by auto
    then have "c # cs = (c # pre) @ t \<and> m t = Some g" by simp
    then show ?thesis by blast
  next
    case (Some a)
    with Cons.prems have "c # cs = [] @ (c # cs) \<and> m (c # cs) = Some g" by simp
    then show ?thesis by blast
  qed
qed

lemma re_search_complete: "m t \<noteq> None \<Longrightarrow> re_search m (pre @ t) \<noteq> None"
proof (induction pre)
  case Nil
  then show ?case by (cases t) (auto split: option.splits)
next
  case (Cons c pre)
  then show ?case by (auto split: option.splits)
qed

lemma lat_lon_occurs_iff: "lat_lon_occurs u = (re_search match_lat_lon u \<noteq> None)"
proof
  assume "lat_lon_occurs u"
  then obtain pre n1 n2 post where eq: "u = pre @ (''/@'' @ n1 @ '','' @ n2 @ '','' @ post)"
    and d: "decimal n1" "decimal n2"
    unfolding lat_lon_occurs_def by auto
  have "match_lat_lon (''/@'' @ n1 @ '','' @ n2 @ '','' @ post) \<noteq> None"
    using match_lat_lon_complete[OF d] by simp
  then show "re_search match_lat_lon u \<noteq> None"
    unfolding eq by (rule re_search_complete)
next
  assume "re_search match_lat_lon u \<noteq> None"
  then obtain g1 g2 where "re_search match_lat_lon u = Some (g1, g2)" by auto
  from re_search_sound[OF this] obtain pre t where eq: "u = pre @ t" and m: "match_lat_lon t = Some (g1, g2)"
    by blast
  from match_lat_lon_sound[OF m] obtain post where
    "t = ''/@'' @ g1 @ '','' @ g2 @ '','' @ post" "decimal g1" "decimal g2" by blast
  with eq show "lat_lon_occurs u" unfolding lat_lon_occurs_def by blast
qed

lemma py_float_decimal:
  assumes "decimal w"
  shows "py_float w \<noteq> None"
proof -
  from assms obtain sg a b where w: "w = sg @ a @ ''.'' @ b" and sg: "sg = [] \<or> sg = ''-''"
    and ne: "a \<noteq> []" "b \<noteq> []" and d: "list_all is_digit a" "list_all is_digit b"
    by (auto simp: decimal_def)
  have ta: "takeWhile is_digit (a @ CHR ''.'' # b) = a"
    and da: "dropWhile is_digit (a @ CHR ''.'' # b) = CHR ''.'' # b"
    using d(1) not_digit_dot by (simp_all add: takeWhile_run dropWhile_run)
  from sg show ?thesis
  proof
    assume "sg = []"
    moreover obtain x a' where a: "a = x # a'" using ne(1) by (cases a) auto
    moreover have "x \<noteq> CHR ''-''" using d(1) a not_digit_minus by auto
    ultimately show ?thesis
      using ta da ne d unfolding w py_float_def by (simp add: a)
  next
    assume "sg = ''-''"
    then show ?thesis
      using ta da ne d unfolding w py_float_def by simp
  qed
qed

lemma re_search_lat_lon_float:
  assumes "re_search match_lat_lon u = Some (g1, g2)"
  shows "py_float g1 \<noteq> None \<and> py_float g2 \<noteq> None"
proof -
  from re_search_sound[OF assms] obtain pre t where "match_lat_lon t = Some (g1, g2)" by blast
  from match_lat_lon_sound[OF this] have "decimal g1" "decimal g2" by auto
  then show ?thesis by (simp add: py_float_decimal)
qed


lemma takeWhile_ne: "(takeWhile P xs \<noteq> []) = (\<exists>c r. xs = c # r \<and> P c)"
  by (cases xs) auto

lemma match_panoid_iff:
  "(match_panoid t \<noteq> None) =
     (\<exists>c post. t = ''panoid%3D'' @ [c] @ post \<and> c \<noteq> CHR ''%'' \<and> c \<noteq> CHR ''&'')"
proof
  assume "match_panoid t \<noteq> None"
  then obtain s1 where a: "strip_prefix ''panoid%3D'' t = Some s1"
    and b: "takeWhile (\<lambda>c. c \<noteq> CHR ''%'' \<and> c \<noteq> CHR ''&'') s1 \<noteq> []"
    by (auto simp: match_panoid_def split: option.splits if_splits)
  from b obtain c r where "s1 = c # r" "c \<noteq> CHR ''%''" "c \<noteq> CHR ''&''"
    unfolding takeWhile_ne by blast
  with a show "\<exists>c post. t = ''panoid%3D'' @ [c] @ post \<and> c \<noteq> CHR ''%'' \<and> c \<noteq> CHR ''&''"
    unfolding strip_prefix_Some by auto
next
  assume "\<exists>c post. t = ''panoid%3D'' @ [c] @ post \<and> c \<noteq> CHR ''%'' \<and> c \<noteq> CHR ''&''"
  then obtain c post where t: "t = ''panoid%3D'' @ (c # post)" and c: "c \<noteq> CHR ''%''" "c \<noteq> CHR ''&''"
    by auto
  have "strip_prefix ''panoid%3D'' t = Some (c # post)" unfolding t by (rule strip_prefix_append)
  with c show "match_panoid t \<noteq> None" by (simp add: match_panoid_def)
qed

lemma panoid_occurs_iff: "panoid_occurs u = (re_search match_panoid u \<noteq> None)"
proof
  assume "panoid_occurs u"
  then obtain pre c post where eq: "u = pre @ (''panoid%3D'' @ [c] @ post)"
    and c: "c \<noteq> CHR ''%''" "c \<noteq> CHR ''&''"
    unfolding panoid_occurs_def by auto
  have "match_panoid (''panoid%3D'' @ [c] @ post) \<noteq> None"
    unfolding match_panoid_iff using c by blast
  then show "re_search match_panoid u \<noteq> None"
    unfolding eq by (rule re_search_complete)
next
  assume "re_search match_panoid u \<noteq> None"
  then obtain g where "re_search match_panoid u = Some g" by auto
  from re_search_sound[OF this] obtain pre t where eq: "u = pre @ t" and m: "match_panoid t \<noteq> None"
    by force
  from m obtain c post where "t = ''panoid%3D'' @ [c] @ post" "c \<noteq> CHR ''%''" "c \<noteq> CHR ''&''"
    unfolding match_panoid_iff by blast
  with eq show "panoid_occurs u" unfolding panoid_occurs_def by blast
qed

lemma not_all_dropWhile: "dropWhile P xs = c # r \<Longrightarrow> \<not> P c"
  using hd_dropWhile[of P xs] by auto

lemma match_3m5_iff:
  "(match_3m5 t \<noteq> None) =
     (\<exists>g post. t = ''!3m5!1s'' @ g @ ''!'' @ post \<and> g \<noteq> [] \<and> CHR ''!'' \<notin> set g)"
proof
  assume "match_3m5 t \<noteq> None"
  then obtain s1 c s2 where a: "strip_prefix ''!3m5!1s'' t = Some s1"
    and b: "takeWhile (\<lambda>c. c \<noteq> CHR ''!'') s1 \<noteq> []"
    and d: "dropWhile (\<lambda>c. c \<noteq> CHR ''!'') s1 = c # s2"
    by (auto simp: match_3m5_def split: option.splits if_splits list.splits)
  from not_all_dropWhile[OF d] have c: "c = CHR ''!''" by simp
  have "s1 = takeWhile (\<lambda>c. c \<noteq> CHR ''!'') s1 @ ''!'' @ s2"
    using takeWhile_dropWhile_id[of "\<lambda>c. c \<noteq> CHR ''!''" s1] d c by simp
  moreover have "CHR ''!'' \<notin> set (takeWhile (\<lambda>c. c \<noteq> CHR ''!'') s1)"
    using set_takeWhileD by fastforce
  ultimately have "t = ''!3m5!1s'' @ takeWhile (\<lambda>c. c \<noteq> CHR ''!'') s1 @ ''!'' @ s2
      \<and> takeWhile (\<lambda>c. c \<noteq> CHR ''!'') s1 \<noteq> []
      \<and> CHR ''!'' \<notin> set (takeWhile (\<lambda>c. c \<noteq> CHR ''!'') s1)"
    using a b unfolding strip_prefix_Some by simp
  then show "\<exists>g post. t = ''!3m5!1s'' @ g @ ''!'' @ post \<and> g \<noteq> [] \<and> CHR ''!'' \<notin> set g"
    by blast
next
  assume "\<exists>g post. t = ''!3m5!1s'' @ g @ ''!'' @ post \<and> g \<noteq> [] \<and> CHR ''!'' \<notin> set g"
  then obtain g post where t: "t = ''!3m5!1s'' @ (g @ CHR ''!'' # post)" and g: "g \<noteq> []" "CHR ''!'' \<notin> set g"
    by auto
  have sp: "strip_prefix ''!3m5!1s'' t = Some (g @ CHR ''!'' # post)"
    unfolding t by (rule strip_prefix_append)
  have all: "list_all (\<lambda>c. c \<noteq> CHR ''!'') g" using g(2) by (auto simp: list_all_iff)
  have "takeWhile (\<lambda>c. c \<noteq> CHR ''!'') (g @ CHR ''!'' # post) = g"
    and "dropWhile (\<lambda>c. c \<noteq> CHR ''!'') (g @ CHR ''!'' # post) = CHR ''!'' # post"
    using all by (simp_all add: takeWhile_run dropWhile_run)
  with sp g show "match_3m5 t \<noteq> None" by (simp add: match_3m5_def)
qed

lemma data_3m5_occurs_iff: "data_3m5_occurs u = (re_search match_3m5 u \<noteq> None)"
proof
  assume "data_3m5_occurs u"
  then obtain pre g post where eq: "u = pre @ (''!3m5!1s'' @ g @ ''!'' @ post)"
    and g: "g \<noteq> []" "CHR ''!'' \<notin> set g"
    unfolding data_3m5_occurs_def by auto
  have "match_3m5 (''!3m5!1s'' @ g @ ''!'' @ post) \<noteq> None"
    unfolding match_3m5_iff using g by blast
  then show "re_search match_3m5 u \<noteq> None"
    unfolding eq by (rule re_search_complete)
next
  assume "re_search match_3m5 u \<noteq> None"
  then obtain x where "re_search match_3m5 u = Some x" by auto
  from re_search_sound[OF this] obtain pre t where eq: "u = pre @ t" and m: "match_3m5 t \<noteq> None"
    by force
  from m obtain g post where "t = ''!3m5!1s'' @ g @ ''!'' @ post" "g \<noteq> []" "CHR ''!'' \<notin> set g"
    unfolding match_3m5_iff by blast
  with eq show "data_3m5_occurs u" unfolding data_3m5_occurs_def by blast
qed

text \<open>
  Claim C10: \<^verbatim>\<open>parse_google_maps_url\<close> returns a triple for every string. Where the
  latitude/longitude pattern does not occur the triple is \<open>(None, None, None)\<close>; where it
  occurs both coordinates are numbers (the conversion of the captured groups never takes the
  exception path); an id is never returned without both coordinates; with the coordinates
  present and neither id pattern occurring the id is None.
\<close>

theorem parse_google_maps_url_total:
  "(\<not> lat_lon_occurs u \<longrightarrow> parse_google_maps_url u = (None, None, None))
   \<and> (lat_lon_occurs u \<longrightarrow>
        (\<exists>lat lon. fst (parse_google_maps_url u) = Some lat
                  \<and> fst (snd (parse_google_maps_url u)) = Some lon))
   \<and> (snd (snd (parse_google_maps_url u)) \<noteq> None \<longrightarrow>
        fst (parse_google_maps_url u) \<noteq> None \<and> fst (snd (parse_google_maps_url u)) \<noteq> None)
   \<and> (lat_lon_occurs u \<and> \<not> panoid_occurs u \<and> \<not> data_3m5_occurs u \<longrightarrow>
        snd (snd (parse_google_maps_url u)) = None)
   \<and> (panoid_occurs u \<or> data_3m5_occurs u \<longrightarrow>
        (snd (snd (parse_google_maps_url u)) \<noteq> None) = lat_lon_occurs u)"
proof (cases "re_search match_lat_lon u")
  case None
  then have "\<not> lat_lon_occurs u" by (simp add: lat_lon_occurs_iff)
  moreover have "parse_google_maps_url u = (None, None, None)"
    using None by (simp add: parse_google_maps_url_def)
  ultimately show ?thesis by simp
next
  case (Some g)
  obtain g1 g2 where g: "g = (g1, g2)" by (cases g)
  from re_search_lat_lon_float[OF Some[unfolded g]] obtain lat lon where
    f: "py_float g1 = Some lat" "py_float g2 = Some lon" by auto
  have occ: "lat_lon_occurs u" using Some by (simp add: lat_lon_occurs_iff)
  have p: "parse_google_maps_url u =
      (Some lat, Some lon,
       case re_search match_panoid u of Some pano_id \<Rightarrow> Some pano_id
       | None \<Rightarrow> re_search match_3m5 u)"
    using Some g f by (simp add: parse_google_maps_url_def split: option.splits)
  show ?thesis
    unfolding p using occ
    by (auto simp: panoid_occurs_iff data_3m5_occurs_iff split: option.splits)
qed

theorem parse_google_maps_url_total_witness:
  "\<not> lat_lon_occurs ''abc''
   \<and> parse_google_maps_url ''abc'' = (None, None, None)
   \<and> lat_lon_occurs ''/@-48.69,6.18,3a''
   \<and> \<not> panoid_occurs ''/@-48.69,6.18,3a'' \<and> \<not> data_3m5_occurs ''/@-48.69,6.18,3a''
   \<and> parse_google_maps_url ''/@-48.69,6.18,3a'' = (Some (- 48.69), Some 6.18, None)
   \<and> data_3m5_occurs ''x/@48.69,6.18,3a!3m5!1sAb!2e0''
   \<and> snd (snd (parse_google_maps_url ''x/@48.69,6.18,3a!3m5!1sAb!2e0'')) \<noteq> None
   \<and> fst (parse_google_maps_url ''x/@48.69,6.18,3a!3m5!1sAb!2e0'') \<noteq> None"
  using parse_google_maps_url_total [of "''abc''"]
    parse_google_maps_url_total [of "''/@-48.69,6.18,3a''"]
    parse_google_maps_url_total [of "''x/@48.69,6.18,3a!3m5!1sAb!2e0''"]
  by (simp add: lat_lon_occurs_iff panoid_occurs_iff data_3m5_occurs_iff
        parse_google_maps_url_def match_lat_lon_def strip_prefix_def match_number_def is_digit_def
        py_float_def digits_val_def match_panoid_def match_3m5_def)

section \<open>Properties of the controller\<close>

subsection \<open>One iteration, case by case\<close>

lemma set_url_returns:
  "set_url dwithin w u db = (Inr x, db') \<Longrightarrow> x = ((0, 0), 0)"
  by (auto simp: set_url_def split: prod.splits sum.splits bool.splits if_splits)

lemma reseed_alt:
  "reseed dwithin w s db =
     (case set_url dwithin w (seed_url w s db) db of
        (Inl e, db2) \<Rightarrow> (Inl e, db2)
      | (Inr x, db2) \<Rightarrow>
          (Inr (s\<lparr>url := seed_url w s db, old_lat_long := (0, 0), chained_fail := 0,
                   move := False\<rparr>), db2))"
proof -
  obtain c where g: "get_starting_coordinates (seed_fails w) db = (c, db)"
    using get_starting_coordinates_keeps_db[of "seed_fails w" db]
    by (cases "get_starting_coordinates (seed_fails w) db") auto
  obtain r db2 where su: "set_url dwithin w (seed_url w s db) db = (r, db2)"
    by (cases "set_url dwithin w (seed_url w s db) db")
  have u: "(case c of (Some latitude, Some longitude) \<Rightarrow> create_streetview_url latitude longitude
                    | _ \<Rightarrow> url s) = seed_url w s db"
    by (simp add: seed_url_def g)
  show ?thesis
  proof (cases r)
    case (Inl e)
    then show ?thesis using su by (simp add: reseed_def g u)
  next
    case (Inr x)
    with su set_url_returns[of dwithin w "seed_url w s db" db x db2] have "x = ((0, 0), 0)" by simp
    then show ?thesis using su Inr by (simp add: reseed_def g u)
  qed
qed

lemma reseed_state:
  assumes "reseed dwithin w s db = (Inr s', db')"
  shows "s' = s\<lparr>url := seed_url w s db, old_lat_long := (0, 0), chained_fail := 0, move := False\<rparr>"
  using assms unfolding reseed_alt by (auto split: prod.splits sum.splits)

lemma loop_body_cases:
  assumes "loop_body dwithin w s db = (t, Continue s' db')"
  obtains
    (stall) r where "t = CannotGoForward" "reseed dwithin w (s\<lparr>move := True\<rparr>) db = (Inr r, db')"
      "s' = r\<lparr>iter := iter r + 1\<rparr>"
  | (leave) r where "t = LeavingNancy" "reseed dwithin w (s\<lparr>move := True\<rparr>) db = (Inr r, db')"
      "s' = r"
  | (toomuch) r la lo p where "t = TooMuchFail"
      "reseed dwithin w (s\<lparr>move := True, chained_fail := chained_fail s + 1\<rparr>)
         (snd (insert_db dwithin (insert_fails w) (Some la) (Some lo) (Some p) db)) = (Inr r, db')"
      "s' = r\<lparr>iter := iter r + 1, keytopress := flip_key (keytopress r)\<rparr>"
      "2 < chained_fail s + 1"
  | (seen) la lo p where "t = AlreadySeen"
      "s' = s\<lparr>move := True, chained_fail := chained_fail s + 1\<rparr>"
      "chained_fail s + 1 \<le> 2"
      "db' = snd (insert_db dwithin (insert_fails w) (Some la) (Some lo) (Some p) db)"
  | (inserted) la lo p where "t = Inserted"
      "s' = s\<lparr>move := True, old_lat_long := (la, lo), iter := iter s + 1, chained_fail := 0\<rparr>"
      "db' = snd (insert_db dwithin (insert_fails w) (Some la) (Some lo) (Some p) db)"
proof -
  from assms have nb: "\<not> browser_raises w"
    by (auto simp: loop_body_def split: if_splits)
  obtain lat long panoid where pr: "parse_google_maps_url (current_url w) = (lat, long, panoid)"
    by (cases "parse_google_maps_url (current_url w)") auto
  show thesis
  proof (cases "(lat, long) = (Some (fst (old_lat_long s)), Some (snd (old_lat_long s)))")
    case True
    with assms nb pr stall show thesis
      by (auto simp: loop_body_def Let_def split: prod.splits sum.splits)
  next
    case False
    with assms nb pr obtain la lo p where some: "lat = Some la" "long = Some lo" "panoid = Some p"
      by (auto simp: loop_body_def Let_def split: option.splits)
    show thesis
    proof (cases "in_nancy la lo")
      case out: False
      with assms nb pr False some leave show thesis
        by (auto simp: loop_body_def Let_def split: prod.splits sum.splits)
    next
      case inside: True
      obtain res db1 where ins: "insert_db dwithin (insert_fails w) (Some la) (Some lo) (Some p) db = (res, db1)"
        by (cases "insert_db dwithin (insert_fails w) (Some la) (Some lo) (Some p) db")
      show thesis
      proof (cases res)
        case (Inl e)
        with assms nb pr False some inside ins show thesis
          by (auto simp: loop_body_def Let_def)
      next
        case (Inr ok)
        show thesis
        proof (cases ok)
          case True
          with assms nb pr False some inside ins Inr inserted[where la=la and lo=lo and p=p] show thesis
            by (auto simp: loop_body_def Let_def)
        next
          case rej: False
          show thesis
          proof (cases "2 < chained_fail s + 1")
            case True
            with assms nb pr False some inside ins Inr rej toomuch[where la=la and lo=lo and p=p] show thesis
              by (auto simp: loop_body_def Let_def split: prod.splits sum.splits)
          next
            case few: False
            with assms nb pr False some inside ins Inr rej seen[where la=la and lo=lo and p=p] show thesis
              by (auto simp: loop_body_def Let_def)
          qed
        qed
      qed
    qed
  qed
qed

lemma seed_url_update [simp]:
  "seed_url w (s\<lparr>move := m\<rparr>) db = seed_url w s db"
  "seed_url w (s\<lparr>chained_fail := c\<rparr>) db = seed_url w s db"
  by (simp_all add: seed_url_def split: prod.splits option.splits)






lemma loop_body_iter:
  assumes "loop_body dwithin w s db = (t, Continue s' db')"
  shows "iter s' = (if t = Inserted \<or> t = CannotGoForward \<or> t = TooMuchFail then iter s + 1
                    else iter s)"
  using assms
proof (cases rule: loop_body_cases)
  case (stall r)
  then show ?thesis by (simp add: reseed_state[OF stall(2)])
next
  case (leave r)
  then show ?thesis by (simp add: reseed_state[OF leave(2)])
next
  case (toomuch r la lo p)
  then show ?thesis by (simp add: reseed_state[OF toomuch(2)])
next
  case (seen la lo p)
  then show ?thesis by simp
next
  case (inserted la lo p)
  then show ?thesis by simp
qed

lemma selenium_loop_iter_mono:
  "snd (selenium_loop dwithin ws s db) = Continue s' db' \<Longrightarrow> iter s \<le> iter s'"
proof (induction ws arbitrary: s db)
  case Nil
  then show ?case by simp
next
  case (Cons w ws)
  obtain t out where lb: "loop_body dwithin w s db = (t, out)"
    by (cases "loop_body dwithin w s db")
  show ?case
  proof (cases out)
    case (Continue s1 db1)
    with Cons.prems lb have "snd (selenium_loop dwithin ws s1 db1) = Continue s' db'"
      by (simp split: prod.splits)
    from Cons.IH[OF this] have "iter s1 \<le> iter s'" .
    moreover have "iter s \<le> iter s1"
      using loop_body_iter[OF lb[unfolded Continue]] by (simp split: if_splits)
    ultimately show ?thesis by simp
  next
    case (Break db1)
    with Cons.prems lb show ?thesis by simp
  qed
qed

subsection \<open>Concrete observations\<close>

lemma parse_example_a:
  "parse_google_maps_url ''/@48.6930,6.1855,3a!3m5!1sAb!2e0'' = (Some 48.6930, Some 6.1855, Some ''Ab'')"
  by (simp add: parse_google_maps_url_def match_lat_lon_def strip_prefix_def match_number_def
        is_digit_def py_float_def digits_val_def match_panoid_def match_3m5_def)

lemma parse_example_b:
  "parse_google_maps_url ''/@48.6931,6.1855,3a!3m5!1sCd!2e0'' = (Some 48.6931, Some 6.1855, Some ''Cd'')"
  by (simp add: parse_google_maps_url_def match_lat_lon_def strip_prefix_def match_number_def
        is_digit_def py_float_def digits_val_def match_panoid_def match_3m5_def)

lemma parse_example_c:
  "parse_google_maps_url ''/@40.0,6.0,3a!3m5!1sEf!2e0'' = (Some 40.0, Some 6.0, Some ''Ef'')"
  by (simp add: parse_google_maps_url_def match_lat_lon_def strip_prefix_def match_number_def
        is_digit_def py_float_def digits_val_def match_panoid_def match_3m5_def)

lemma in_nancy_example_a: "in_nancy 48.6930 6.1855"
  by (simp add: in_nancy_def latcenter_nancy_def longcenter_nancy_def power2_eq_square R_nancy_sq)

lemma in_nancy_example_a': "in_nancy (48693 / 1000) (12371 / 2000)"
  using in_nancy_example_a by simp

lemma not_in_nancy_example_c: "\<not> in_nancy 40 6"
  by (simp add: in_nancy_def latcenter_nancy_def longcenter_nancy_def power2_eq_square R_nancy_sq)

lemmas eval_defs = loop_body_def reseed_def set_url_def get_starting_coordinates_def insert_db_def
  commit_and_insert_def find_nearest_query_def within_30_def planar_dwithin_def knn_sq_def
  delete_query_def no_fault_def run_streetview_downloader_single_def create_streetview_url_def
  flip_key_def power2_eq_square

subsection \<open>Direction flips\<close>

text \<open>
  Claim C5, as the code has it: an iteration that goes on has flipped \<^verbatim>\<open>keytopress\<close> exactly
  when it took the failure-threshold branch. The stall branch (position equal to
  \<^verbatim>\<open>old_lat_long\<close>) and the out-of-bounds branch (position outside the fence) reseed and keep
  the key.
\<close>

theorem keytopress_flips_only_after_too_much_fail:
  "(loop_body dwithin w s db = (t, Continue s' db') \<longrightarrow>
      keytopress s' = (if t = TooMuchFail then flip_key (keytopress s) else keytopress s))
   \<and> (\<not> browser_raises w
        \<and> (fst (parse_google_maps_url (current_url w)),
            fst (snd (parse_google_maps_url (current_url w))))
           = (Some (fst (old_lat_long s)), Some (snd (old_lat_long s))) \<longrightarrow>
      fst (loop_body dwithin w s db) = CannotGoForward)
   \<and> (\<not> browser_raises w
        \<and> parse_google_maps_url (current_url w) = (Some la, Some lo, Some p)
        \<and> (la, lo) \<noteq> old_lat_long s \<and> \<not> in_nancy la lo \<longrightarrow>
      fst (loop_body dwithin w s db) = LeavingNancy)"
proof (intro conjI impI)
  assume a: "loop_body dwithin w s db = (t, Continue s' db')"
  show "keytopress s' = (if t = TooMuchFail then flip_key (keytopress s) else keytopress s)"
    using a
  proof (cases rule: loop_body_cases)
    case (stall r)
    then show ?thesis by (simp add: reseed_state[OF stall(2)])
  next
    case (leave r)
    then show ?thesis by (simp add: reseed_state[OF leave(2)])
  next
    case (toomuch r la lo p)
    then show ?thesis by (simp add: reseed_state[OF toomuch(2)])
  next
    case seen
    then show ?thesis by simp
  next
    case (inserted la lo p)
    then show ?thesis by simp
  qed
next
  assume "\<not> browser_raises w
        \<and> (fst (parse_google_maps_url (current_url w)),
            fst (snd (parse_google_maps_url (current_url w))))
           = (Some (fst (old_lat_long s)), Some (snd (old_lat_long s)))"
  then show "fst (loop_body dwithin w s db) = CannotGoForward"
    by (auto simp: loop_body_def Let_def split: prod.splits sum.splits)
next
  assume "\<not> browser_raises w
        \<and> parse_google_maps_url (current_url w) = (Some la, Some lo, Some p)
        \<and> (la, lo) \<noteq> old_lat_long s \<and> \<not> in_nancy la lo"
  then show "fst (loop_body dwithin w s db) = LeavingNancy"
    by (auto simp: loop_body_def Let_def split: prod.splits sum.splits)
qed

text \<open>
  A stall: the browser shows the position already held in \<^verbatim>\<open>old_lat_long\<close>. The controller
  reseeds from the frontier and goes on with the same arrow key.
\<close>

theorem stall_keeps_keytopress_counterexample:
  "loop_body planar_dwithin
     \<lparr>browser_raises = False, current_url = ''/@48.6930,6.1855,3a!3m5!1sAb!2e0'',
      insert_fails = no_fault, seed_fails = no_fault, landing_raises = False,
      landing_url = ''/@48.6931,6.1855,3a!3m5!1sCd!2e0'', landing_fails = no_fault,
      click_raises = False\<rparr>
     \<lparr>move = True, iter = 5, keytopress = ARROW_UP, old_lat_long = (48.6930, 6.1855),
      chained_fail = 0, url = Given ''start''\<rparr>
     \<lparr>to_insert = [\<lparr>ti_latitude = 48.6931, ti_longitude = 6.1855, ti_geom = None\<rparr>],
      panoids = []\<rparr>
   = (CannotGoForward,
      Continue
        \<lparr>move = False, iter = 6, keytopress = ARROW_UP, old_lat_long = (0, 0),
         chained_fail = 0, url = Streetview 48.6931 6.1855\<rparr>
        \<lparr>to_insert = [\<lparr>ti_latitude = 48.6931, ti_longitude = 6.1855, ti_geom = None\<rparr>],
         panoids = [\<lparr>p_latitude = 48.6931, p_longitude = 6.1855, p_pano_id = Some ''Cd'',
                     p_geom = Some (6.1855, 48.6931)\<rparr>]\<rparr>)"
  by (simp add: eval_defs parse_example_a parse_example_b)

text \<open>The three branches at concrete observations: only the failure threshold flips the key.\<close>

theorem keytopress_flips_only_after_too_much_fail_witness:
  "loop_body planar_dwithin
     \<lparr>browser_raises = False, current_url = ''/@48.6930,6.1855,3a!3m5!1sAb!2e0'',
       insert_fails = (\<lambda>x. x = Connect), seed_fails = no_fault, landing_raises = False,
       landing_url = ''/@48.6931,6.1855,3a!3m5!1sCd!2e0'', landing_fails = no_fault,
       click_raises = False\<rparr>
     \<lparr>move = True, iter = 5, keytopress = ARROW_UP, old_lat_long = (0, 0),
      chained_fail = 2, url = Given ''start''\<rparr>
     \<lparr>to_insert = [], panoids = []\<rparr>
   = (TooMuchFail,
      Continue
        \<lparr>move = False, iter = 6, keytopress = ARROW_DOWN, old_lat_long = (0, 0),
         chained_fail = 0, url = Given ''start''\<rparr>
        \<lparr>to_insert = [],
         panoids = [\<lparr>p_latitude = 48.6931, p_longitude = 6.1855, p_pano_id = Some ''Cd'',
                     p_geom = Some (6.1855, 48.6931)\<rparr>]\<rparr>)
   \<and> fst (loop_body planar_dwithin
     \<lparr>browser_raises = False, current_url = ''/@48.6930,6.1855,3a!3m5!1sAb!2e0'',
       insert_fails = no_fault, seed_fails = no_fault, landing_raises = False,
       landing_url = ''/@48.6931,6.1855,3a!3m5!1sCd!2e0'', landing_fails = no_fault,
       click_raises = False\<rparr>
     \<lparr>move = True, iter = 5, keytopress = ARROW_UP, old_lat_long = (48.6930, 6.1855),
      chained_fail = 0, url = Given ''start''\<rparr>
     \<lparr>to_insert = [], panoids = []\<rparr>) = CannotGoForward
   \<and> \<not> in_nancy 40 6
   \<and> fst (loop_body planar_dwithin
     \<lparr>browser_raises = False, current_url = ''/@40.0,6.0,3a!3m5!1sEf!2e0'',
       insert_fails = no_fault, seed_fails = no_fault, landing_raises = False,
       landing_url = ''/@48.6931,6.1855,3a!3m5!1sCd!2e0'', landing_fails = no_fault,
       click_raises = False\<rparr>
     \<lparr>move = True, iter = 5, keytopress = ARROW_UP, old_lat_long = (0, 0),
      chained_fail = 0, url = Given ''start''\<rparr>
     \<lparr>to_insert = [], panoids = []\<rparr>) = LeavingNancy"
  using
    keytopress_flips_only_after_too_much_fail [of planar_dwithin
      "\<lparr>browser_raises = False, current_url = ''/@48.6930,6.1855,3a!3m5!1sAb!2e0'',
       insert_fails = (\<lambda>x. x = Connect), seed_fails = no_fault, landing_raises = False,
       landing_url = ''/@48.6931,6.1855,3a!3m5!1sCd!2e0'', landing_fails = no_fault,
       click_raises = False\<rparr>"
      "\<lparr>move = True, iter = 5, keytopress = ARROW_UP, old_lat_long = (0, 0),
      chained_fail = 2, url = Given ''start''\<rparr>"
      "\<lparr>to_insert = [], panoids = []\<rparr>"
      TooMuchFail
      "\<lparr>move = False, iter = 6, keytopress = ARROW_DOWN, old_lat_long = (0, 0),
         chained_fail = 0, url = Given ''start''\<rparr>"
      "\<lparr>to_insert = [],
         panoids = [\<lparr>p_latitude = 48.6931, p_longitude = 6.1855, p_pano_id = Some ''Cd'',
                     p_geom = Some (6.1855, 48.6931)\<rparr>]\<rparr>"]
    keytopress_flips_only_after_too_much_fail [of planar_dwithin
      "\<lparr>browser_raises = False, current_url = ''/@48.6930,6.1855,3a!3m5!1sAb!2e0'',
       insert_fails = no_fault, seed_fails = no_fault, landing_raises = False,
       landing_url = ''/@48.6931,6.1855,3a!3m5!1sCd!2e0'', landing_fails = no_fault,
       click_raises = False\<rparr>"
      "\<lparr>move = True, iter = 5, keytopress = ARROW_UP, old_lat_long = (48.6930, 6.1855),
      chained_fail = 0, url = Given ''start''\<rparr>"
      "\<lparr>to_insert = [], panoids = []\<rparr>"]
    keytopress_flips_only_after_too_much_fail [of planar_dwithin
      "\<lparr>browser_raises = False, current_url = ''/@40.0,6.0,3a!3m5!1sEf!2e0'',
       insert_fails = no_fault, seed_fails = no_fault, landing_raises = False,
       landing_url = ''/@48.6931,6.1855,3a!3m5!1sCd!2e0'', landing_fails = no_fault,
       click_raises = False\<rparr>"
      "\<lparr>move = True, iter = 5, keytopress = ARROW_UP, old_lat_long = (0, 0),
      chained_fail = 0, url = Given ''start''\<rparr>"
      "\<lparr>to_insert = [], panoids = []\<rparr>" _ _ _ 40 6 "''Ef''"]
  by (simp add: eval_defs parse_example_a parse_example_b parse_example_c in_nancy_example_a'
        not_in_nancy_example_c)

subsection \<open>Failure threshold\<close>








subsection \<open>Frontier exhaustion\<close>




subsection \<open>Iteration counting\<close>

text \<open>
  Claim C9, as the code has it: \<^verbatim>\<open>iter\<close> never decreases, over one iteration and over any
  run of the loop; it goes up by one on a commit, a stall reseed and a failure-threshold
  reseed, and stays as it is on a retry after a rejected commit.
\<close>

theorem iter_counts_commits_and_reseeds:
  "(loop_body dwithin w s db = (t, Continue s' db') \<longrightarrow>
      iter s \<le> iter s'
      \<and> (t = Inserted \<or> t = CannotGoForward \<or> t = TooMuchFail \<longrightarrow> iter s' = iter s + 1)
      \<and> (t = AlreadySeen \<longrightarrow> iter s' = iter s))
   \<and> (snd (selenium_loop dwithin ws s db) = Continue s' db' \<longrightarrow> iter s \<le> iter s')"
proof (intro conjI impI)
  assume a: "loop_body dwithin w s db = (t, Continue s' db')"
  show "iter s \<le> iter s'" using loop_body_iter[OF a] by (simp split: if_splits)
  show "iter s' = iter s + 1" if "t = Inserted \<or> t = CannotGoForward \<or> t = TooMuchFail"
    using loop_body_iter[OF a] that by simp
  show "iter s' = iter s" if "t = AlreadySeen"
    using loop_body_iter[OF a] that by simp
next
  assume "snd (selenium_loop dwithin ws s db) = Continue s' db'"
  then show "iter s \<le> iter s'" by (rule selenium_loop_iter_mono)
qed

text \<open>
  A rejected commit below the threshold: the controller retries and \<^verbatim>\<open>iter\<close> is still 5.
\<close>

theorem retry_keeps_iter_counterexample:
  "loop_body planar_dwithin
     \<lparr>browser_raises = False, current_url = ''/@48.6930,6.1855,3a!3m5!1sAb!2e0'',
      insert_fails = (\<lambda>x. x = Connect), seed_fails = no_fault, landing_raises = False,
      landing_url = ''/@48.6931,6.1855,3a!3m5!1sCd!2e0'', landing_fails = no_fault,
      click_raises = False\<rparr>
     \<lparr>move = True, iter = 5, keytopress = ARROW_UP, old_lat_long = (0, 0),
      chained_fail = 0, url = Given ''start''\<rparr>
     \<lparr>to_insert = [], panoids = []\<rparr>
   = (AlreadySeen,
      Continue
        \<lparr>move = True, iter = 5, keytopress = ARROW_UP, old_lat_long = (0, 0),
         chained_fail = 1, url = Given ''start''\<rparr>
        \<lparr>to_insert = [], panoids = []\<rparr>)"
  by (simp add: eval_defs parse_example_a in_nancy_example_a')

text \<open>An accepted commit: \<^verbatim>\<open>iter\<close> goes from 5 to 6.\<close>

theorem iter_counts_commits_and_reseeds_witness:
  "loop_body planar_dwithin
     \<lparr>browser_raises = False, current_url = ''/@48.6930,6.1855,3a!3m5!1sAb!2e0'',
       insert_fails = no_fault, seed_fails = no_fault, landing_raises = False,
       landing_url = ''/@48.6931,6.1855,3a!3m5!1sCd!2e0'', landing_fails = no_fault,
       click_raises = False\<rparr>
     \<lparr>move = True, iter = 5, keytopress = ARROW_UP, old_lat_long = (0, 0),
      chained_fail = 0, url = Given ''start''\<rparr>
     \<lparr>to_insert = [], panoids = []\<rparr>
   = (Inserted,
      Continue
        \<lparr>move = True, iter = 6, keytopress = ARROW_UP, old_lat_long = (48.6930, 6.1855),
         chained_fail = 0, url = Given ''start''\<rparr>
        \<lparr>to_insert = [],
         panoids = [\<lparr>p_latitude = 48.6930, p_longitude = 6.1855, p_pano_id = Some ''Ab'',
                     p_geom = Some (6.1855, 48.6930)\<rparr>]\<rparr>)
   \<and> snd (selenium_loop planar_dwithin
     [\<lparr>browser_raises = False, current_url = ''/@48.6930,6.1855,3a!3m5!1sAb!2e0'',
       insert_fails = no_fault, seed_fails = no_fault, landing_raises = False,
       landing_url = ''/@48.6931,6.1855,3a!3m5!1sCd!2e0'', landing_fails = no_fault,
       click_raises = False\<rparr>]
     \<lparr>move = True, iter = 5, keytopress = ARROW_UP, old_lat_long = (0, 0),
      chained_fail = 0, url = Given ''start''\<rparr>
     \<lparr>to_insert = [], panoids = []\<rparr>)
   = Continue
        \<lparr>move = True, iter = 6, keytopress = ARROW_UP, old_lat_long = (48.6930, 6.1855),
         chained_fail = 0, url = Given ''start''\<rparr>
        \<lparr>to_insert = [],
         panoids = [\<lparr>p_latitude = 48.6930, p_longitude = 6.1855, p_pano_id = Some ''Ab'',
                     p_geom = Some (6.1855, 48.6930)\<rparr>]\<rparr>"
  using
    iter_counts_commits_and_reseeds [of planar_dwithin
      "\<lparr>browser_raises = False, current_url = ''/@48.6930,6.1855,3a!3m5!1sAb!2e0'',
       insert_fails = no_fault, seed_fails = no_fault, landing_raises = False,
       landing_url = ''/@48.6931,6.1855,3a!3m5!1sCd!2e0'', landing_fails = no_fault,
       click_raises = False\<rparr>"
      "\<lparr>move = True, iter = 5, keytopress = ARROW_UP, old_lat_long = (0, 0),
      chained_fail = 0, url = Given ''start''\<rparr>"
      "\<lparr>to_insert = [], panoids = []\<rparr>"
      Inserted
      "\<lparr>move = True, iter = 6, keytopress = ARROW_UP, old_lat_long = (48.6930, 6.1855),
         chained_fail = 0, url = Given ''start''\<rparr>"
      "\<lparr>to_insert = [],
         panoids = [\<lparr>p_latitude = 48.6930, p_longitude = 6.1855, p_pano_id = Some ''Ab'',
                     p_geom = Some (6.1855, 48.6930)\<rparr>]\<rparr>"
      "[\<lparr>browser_raises = False, current_url = ''/@48.6930,6.1855,3a!3m5!1sAb!2e0'',
       insert_fails = no_fault, seed_fails = no_fault, landing_raises = False,
       landing_url = ''/@48.6931,6.1855,3a!3m5!1sCd!2e0'', landing_fails = no_fault,
       click_raises = False\<rparr>]"]
  by (simp add: eval_defs parse_example_a in_nancy_example_a')

end
